theory Spec2Isabelle
  imports Complex_Main
begin

section \<open>Python values shared by the three modules\<close>

text \<open>
  Exceptions are values.  A method of \<^verbatim>\<open>cInteraction\<close> mutates \<^verbatim>\<open>self\<close>
  before it can raise, so such a method returns the pair of the exception raised (if any)
  and the object as the call leaves it.
\<close>

datatype exn =
    SystemExit int
  | KeyError string
  | IndexError
  | ValueError
  | AttributeError string
  | AssertionError
  | StopIteration

type_synonym 'a outcome = "exn option \<times> 'a"

section \<open>Panda3d/neuron.py\<close>

type_synonym LColor = "real \<times> real \<times> real \<times> real"

datatype render_mode = FilledWireframe LColor

text \<open>
  The node a loader returns, as far as \<^verbatim>\<open>cNeuron\<close> writes to it: colour and render
  mode are unset (\<open>None\<close>) until a setter is called.
\<close>

record gfx_node =
  model :: string
  node_color :: "LColor option"
  node_render_mode :: "render_mode option"
  node_pos :: "real \<times> real \<times> real"
  node_scale :: "real \<times> real \<times> real"

text \<open>\<^verbatim>\<open>self.__node\<close> exists only after \<^verbatim>\<open>CreateGfx\<close>: \<open>None\<close> before.\<close>

record cNeuron =
  state :: bool
  node :: "gfx_node option"

definition red :: LColor where
  "red = (1, 0, 0, 1)"

definition white :: LColor where
  "white = (1, 1, 1, 1)"

definition black :: LColor where
  "black = (0, 0, 0, 1)"

definition UpdateState :: "cNeuron \<Rightarrow> exn + cNeuron" where
  "UpdateState n =
     (case node n of
        None \<Rightarrow> Inl (AttributeError ''_cNeuron__node'')
      | Some nd \<Rightarrow>
          let nd1 = (if state n then nd\<lparr>node_color := Some (1, 0, 0, 1)\<rparr>
                     else nd\<lparr>node_color := Some (1, 1, 1, 1)\<rparr>)
          in Inr (n\<lparr>node := Some (nd1\<lparr>node_render_mode := Some (FilledWireframe (0, 0, 0, 1))\<rparr>)\<rparr>))"

definition CreateGfx :: "(string \<Rightarrow> gfx_node) \<Rightarrow> cNeuron \<Rightarrow> exn + cNeuron" where
  "CreateGfx loadModel n =
     (let nd = loadModel ''cube'';
          nd1 = nd\<lparr>node_render_mode := Some (FilledWireframe (0, 0, 0, 1))\<rparr>;
          nd2 = nd1\<lparr>node_pos := (0, 0, 0)\<rparr>;
          nd3 = nd2\<lparr>node_scale := (1/2, 1/2, 1/2)\<rparr>
      in UpdateState (n\<lparr>node := Some nd3\<rparr>))"

definition cube :: "string \<Rightarrow> gfx_node" where
  "cube name = \<lparr>model = name, node_color = None, node_render_mode = None,
                 node_pos = (3, 4, 5), node_scale = (1, 1, 1)\<rparr>"

section \<open>PandaVis/interaction.py\<close>

subsection \<open>The engine's scene graph, as far as picking reads it\<close>

text \<open>
  A node has a name and string tags.  A \<^verbatim>\<open>NodePath\<close> is the list of nodes from
  the root down to the node it denotes; the empty list is the empty \<^verbatim>\<open>NodePath\<close>.
  The engine's accessors are modelled after its documentation: \<^verbatim>\<open>getTag\<close> gives
  the empty string for a missing tag (and on the empty path), \<^verbatim>\<open>getParent\<close> drops
  the last node, \<^verbatim>\<open>findNetTag\<close> gives the nearest path, from the node upwards, whose
  node carries the tag, or the empty path, and \<^verbatim>\<open>str\<close> joins the names with slashes.
\<close>

record pnode =
  name :: string
  tags :: "string \<rightharpoonup> string"

type_synonym NodePath = "pnode list"

definition isEmpty :: "NodePath \<Rightarrow> bool" where
  "isEmpty p = (p = [])"

definition getTag :: "NodePath \<Rightarrow> string \<Rightarrow> string" where
  "getTag p key =
     (case rev p of
        [] \<Rightarrow> []
      | n # _ \<Rightarrow> (case tags n key of None \<Rightarrow> [] | Some v \<Rightarrow> v))"

definition getName :: "NodePath \<Rightarrow> string" where
  "getName p = (case rev p of [] \<Rightarrow> [] | n # _ \<Rightarrow> name n)"

definition getParent :: "NodePath \<Rightarrow> NodePath" where
  "getParent p = butlast p"

definition findNetTag :: "string \<Rightarrow> NodePath \<Rightarrow> NodePath" where
  "findNetTag key p = rev (dropWhile (\<lambda>n. tags n key = None) (rev p))"

fun join_slash :: "string list \<Rightarrow> string" where
  "join_slash [] = []"
| "join_slash [w] = w"
| "join_slash (w # v # ws) = w @ ''/'' @ join_slash (v # ws)"

definition str_NodePath :: "NodePath \<Rightarrow> string" where
  "str_NodePath p = (if p = [] then ''**empty**'' else join_slash (map name p))"

text \<open>Python's \<^verbatim>\<open>s.split(sep)\<close> for a one-character separator.\<close>

primrec split_str :: "char \<Rightarrow> string \<Rightarrow> string list" where
  "split_str sep [] = [[]]"
| "split_str sep (x # xs) =
     (if x = sep then [] # split_str sep xs
      else (case split_str sep xs of
              [] \<Rightarrow> [[x]]
            | w # ws \<Rightarrow> (x # w) # ws))"

text \<open>
  Python's \<^verbatim>\<open>xs[i]\<close> (a negative index counts from the end; out of range raises
  \<^verbatim>\<open>IndexError\<close>: \<open>None\<close>) and \<^verbatim>\<open>xs.index(x)\<close> (the first position of \<open>x\<close>;
  \<^verbatim>\<open>ValueError\<close> when there is none: \<open>None\<close>).
\<close>

definition py_index :: "'a list \<Rightarrow> int \<Rightarrow> 'a option" where
  "py_index xs i =
     (let n = int (length xs); j = (if i < 0 then n + i else i)
      in if 0 \<le> j \<and> j < n then Some (xs ! nat j) else None)"

primrec list_index :: "'a list \<Rightarrow> 'a \<Rightarrow> nat option" where
  "list_index [] y = None"
| "list_index (x # xs) y =
     (if x = y then Some 0 else map_option Suc (list_index xs y))"

subsection \<open>The objects \<^verbatim>\<open>cInteraction\<close> holds\<close>

text \<open>
  Cells and columns are objects with identity: addresses.  A column lists its cells,
  a cell points back to its column.  The cell class is not in the source files;
  its two methods called here are modelled below as \<open>setFocus\<close> and
  \<open>resetFocus\<close>.
\<close>

type_synonym addr = nat

datatype focus_call = ResetFocus addr | SetFocus addr

record store =
  cell_column :: "addr \<Rightarrow> addr"
  column_cells :: "addr \<Rightarrow> addr list"
  focused :: "addr set"
  focus_calls :: "focus_call list"

text \<open>
  Modelled from the spec: the cell class's \<^verbatim>\<open>setFocus\<close> and \<^verbatim>\<open>resetFocus\<close>
  (not in the source files) mark, respectively unmark, the cell as the focused one.
  Each call is also logged, in call order.
\<close>

definition setFocus :: "addr \<Rightarrow> store \<Rightarrow> store" where
  "setFocus c h = h\<lparr>focused := insert c (focused h), focus_calls := focus_calls h @ [SetFocus c]\<rparr>"

definition resetFocus :: "addr \<Rightarrow> store \<Rightarrow> store" where
  "resetFocus c h = h\<lparr>focused := focused h - {c}, focus_calls := focus_calls h @ [ResetFocus c]\<rparr>"

record Layer =
  corticalColumns :: "addr list"

record HTMObject =
  vlayers :: "string \<rightharpoonup> Layer"

datatype request = reqProximalData | reqDistalData

record cClient =
  terminateClientThread :: bool
  requests :: "request list"

record cGUI =
  gui_focusedCell :: "addr option"
  gui_focusedPath :: "string list option"
  columnID :: nat
  cellID :: nat
  showProximalSynapses :: bool
  showDistalSynapses :: bool
  onSpeedBoostChanged :: "bool list"

text \<open>What the engine reports in a frame: the clock and the mouse watcher.\<close>

record mouseWatcher =
  hasMouse :: bool
  getMouseX :: real
  getMouseY :: real

datatype camera_call =
    setPos_relative real real real
  | setZ real
  | setHpr real real real

datatype handler = h_onKey string int | h_onEscape | h_onMouseEvent string bool

record cBase =
  speed :: real
  move_z :: real
  camHeading :: real
  camPitch :: real
  rotateCamera :: bool
  mouseWatcherNode :: mouseWatcher
  camera :: "camera_call list"
  vHTMObjects :: "string \<rightharpoonup> HTMObject"
  accepted :: "(string \<times> handler) list"
  mouseDisabled :: bool

record entry =
  entry_dist :: real
  getIntoNodePath :: NodePath

text \<open>
  \<open>keys\<close> exists once \<^verbatim>\<open>SetupKeys\<close> has run, and the mouse fields once a right
  mouse event has been handled (\<open>None\<close> before).  \<open>handled\<close> is instrumentation: the
  arguments \<^verbatim>\<open>HandlePickedObject\<close> has been called with, in call order.
  \<^verbatim>\<open>printLog\<close> only writes to standard output and is left out.
\<close>

record cInteraction =
  base :: cBase
  gui :: cGUI
  client :: cClient
  heap :: store
  focusedCell :: "addr option"
  focusedPath :: "string list option"
  speedBoost :: bool
  keys :: "string \<rightharpoonup> int"
  mouseX_last :: "real option"
  mouseY_last :: "real option"
  pickerRay :: "(real \<times> real) option"
  myHandler :: "entry list"
  handled :: "NodePath list"

subsection \<open>Keyboard\<close>

definition key_names :: "string list" where
  "key_names = [''arrow_left'', ''arrow_right'', ''arrow_up'', ''arrow_down'',
                ''a'', ''d'', ''w'', ''s'', ''shift'', ''control'', ''space'']"

definition setup_key :: "string \<Rightarrow> cInteraction \<Rightarrow> cInteraction" where
  "setup_key key s =
     s\<lparr>keys := (keys s)(key \<mapsto> 0),
       base := (base s)\<lparr>accepted := accepted (base s) @
                  [(key, h_onKey key 1), (''shift-'' @ key, h_onKey key 1),
                   (key @ ''-up'', h_onKey key 0)]\<rparr>\<rparr>"

definition SetupKeys :: "cInteraction \<Rightarrow> cInteraction" where
  "SetupKeys s =
     (let s1 = fold setup_key key_names (s\<lparr>keys := Map.empty\<rparr>);
          s2 = s1\<lparr>base := (base s1)\<lparr>accepted := accepted (base s1) @ [(''escape'', h_onEscape)]\<rparr>\<rparr>;
          s3 = s2\<lparr>base := (base s2)\<lparr>mouseDisabled := True\<rparr>\<rparr>
      in s3\<lparr>base := (base s3)\<lparr>accepted := accepted (base s3) @
                 [(''mouse1'', h_onMouseEvent ''left'' True),
                  (''mouse1-up'', h_onMouseEvent ''left'' False),
                  (''mouse3'', h_onMouseEvent ''right'' True),
                  (''mouse3-up'', h_onMouseEvent ''right'' False)]\<rparr>\<rparr>)"

definition onKey :: "string \<Rightarrow> int \<Rightarrow> cInteraction \<Rightarrow> cInteraction outcome" where
  "onKey key v s =
     (let s1 = s\<lparr>keys := (keys s)(key \<mapsto> v)\<rparr>
      in case keys s1 ''space'' of
           None \<Rightarrow> (Some (KeyError ''space''), s1)
         | Some sp \<Rightarrow>
             if sp \<noteq> 0 then
               (let s2 = s1\<lparr>speedBoost := \<not> speedBoost s1\<rparr>
                in (None, s2\<lparr>gui := (gui s2)\<lparr>onSpeedBoostChanged :=
                                   onSpeedBoostChanged (gui s2) @ [speedBoost s2]\<rparr>\<rparr>))
             else (None, s1))"

subsection \<open>Closing\<close>

text \<open>
  Statements in sequence: the second runs only when the first returns normally.
  \<^verbatim>\<open>sys.exit(n)\<close> raises \<^verbatim>\<open>SystemExit\<close>.
\<close>

definition and_then :: "'a outcome \<Rightarrow> ('a \<Rightarrow> 'a outcome) \<Rightarrow> 'a outcome" where
  "and_then r k = (case r of (None, s) \<Rightarrow> k s | (Some e, s) \<Rightarrow> (Some e, s))"

definition sys_exit :: "int \<Rightarrow> 'a \<Rightarrow> 'a outcome" where
  "sys_exit n s = (Some (SystemExit n), s)"

definition CloseApp :: "cInteraction \<Rightarrow> cInteraction outcome" where
  "CloseApp s =
     and_then (sys_exit 0 s)
       (\<lambda>s1. (None, s1\<lparr>client := (client s1)\<lparr>terminateClientThread := True\<rparr>\<rparr>))"

subsection \<open>Picking\<close>

text \<open>Lines 222 to 244: the branch for a node named \<^verbatim>\<open>cell\<close>.\<close>

definition focus_cell :: "int \<Rightarrow> int \<Rightarrow> NodePath \<Rightarrow> cInteraction \<Rightarrow> cInteraction outcome" where
  "focus_cell thisId parentId obj s =
     (let parts = split_str (CHR ''/'') (str_NodePath obj) in
      case py_index parts 1 of
        None \<Rightarrow> (Some IndexError, s)
      | Some focusedHTMObject \<Rightarrow>
      (case py_index parts 2 of
        None \<Rightarrow> (Some IndexError, s)
      | Some focusedLayer \<Rightarrow>
      (case vHTMObjects (base s) focusedHTMObject of
        None \<Rightarrow> (Some (KeyError focusedHTMObject), s)
      | Some HTMObj \<Rightarrow>
      (case vlayers HTMObj focusedLayer of
        None \<Rightarrow> (Some (KeyError focusedLayer), s)
      | Some layer \<Rightarrow>
      (case py_index (corticalColumns layer) parentId of
        None \<Rightarrow> (Some IndexError, s)
      | Some col \<Rightarrow>
      (case py_index (column_cells (heap s) col) thisId of
        None \<Rightarrow> (Some IndexError, s)
      | Some newCellFocus \<Rightarrow>
         (let s1 = s\<lparr>focusedPath := Some [focusedHTMObject, focusedLayer]\<rparr>;
              s2 = (case focusedCell s1 of
                      None \<Rightarrow> s1
                    | Some c \<Rightarrow> s1\<lparr>heap := resetFocus c (heap s1)\<rparr>);
              s3 = s2\<lparr>focusedCell := Some newCellFocus\<rparr>;
              s4 = s3\<lparr>heap := setFocus newCellFocus (heap s3)\<rparr>;
              s5 = s4\<lparr>gui := (gui s4)\<lparr>gui_focusedCell := focusedCell s4\<rparr>\<rparr>;
              s6 = s5\<lparr>gui := (gui s5)\<lparr>gui_focusedPath := focusedPath s5\<rparr>\<rparr>
          in case list_index (corticalColumns layer) (cell_column (heap s6) newCellFocus) of
               None \<Rightarrow> (Some ValueError, s6)
             | Some ci \<Rightarrow>
                (let s7 = s6\<lparr>gui := (gui s6)\<lparr>columnID := ci\<rparr>\<rparr> in
                 case list_index (column_cells (heap s7) (corticalColumns layer ! ci)) newCellFocus of
                   None \<Rightarrow> (Some ValueError, s7)
                 | Some k \<Rightarrow>
                    (let s8 = s7\<lparr>gui := (gui s7)\<lparr>cellID := k\<rparr>\<rparr>;
                         s9 = (if showProximalSynapses (gui s8)
                               then s8\<lparr>client := (client s8)\<lparr>requests := requests (client s8) @ [reqProximalData]\<rparr>\<rparr>
                               else s8);
                         s10 = (if showDistalSynapses (gui s9)
                                then s9\<lparr>client := (client s9)\<lparr>requests := requests (client s9) @ [reqDistalData]\<rparr>\<rparr>
                                else s9)
                     in (None, s10))))))))))"

text \<open>
  \<open>toInt\<close> is Python's \<^verbatim>\<open>int\<close> on a string (\<open>None\<close>: \<^verbatim>\<open>ValueError\<close>).
  \<^verbatim>\<open>testRoutine\<close> is not a method of the class: calling it raises.
\<close>

definition HandlePickedObject ::
    "(string \<Rightarrow> int option) \<Rightarrow> NodePath \<Rightarrow> cInteraction \<Rightarrow> cInteraction outcome" where
  "HandlePickedObject toInt obj s0 =
     (let s = s0\<lparr>handled := handled s0 @ [obj]\<rparr> in
      case toInt (getTag obj ''clickable'') of
        None \<Rightarrow> (Some ValueError, s)
      | Some thisId \<Rightarrow>
         (let parent = getParent obj;
              tag = getTag parent ''id''
          in if tag = [] then (None, s)
             else (case toInt tag of
                     None \<Rightarrow> (Some ValueError, s)
                   | Some parentId \<Rightarrow>
                       if getName obj = ''cell'' then focus_cell thisId parentId obj s
                       else if getName obj = ''basement''
                            then (Some (AttributeError ''testRoutine''), s)
                            else (None, s))))"

definition sortEntries :: "entry list \<Rightarrow> entry list" where
  "sortEntries es = sort_key entry_dist es"

text \<open>
  \<open>collide ray\<close> is what traversing the scene leaves in the handler's queue when the
  picker ray goes from the camera lens through the mouse position \<open>ray\<close>.  The mouse
  watcher's \<^verbatim>\<open>getMouse\<close> asserts that the mouse is inside the window.
\<close>

definition onClickObject ::
    "(string \<Rightarrow> int option) \<Rightarrow> (real \<times> real \<Rightarrow> entry list) \<Rightarrow> cInteraction \<Rightarrow> cInteraction outcome" where
  "onClickObject toInt collide s =
     (let mw = mouseWatcherNode (base s) in
      if \<not> hasMouse mw then (Some AssertionError, s)
      else
        (let mpos = (getMouseX mw, getMouseY mw);
             s1 = s\<lparr>pickerRay := Some mpos\<rparr>;
             s2 = s1\<lparr>myHandler := collide mpos\<rparr>
         in if length (myHandler s2) > 0 then
              (let s3 = s2\<lparr>myHandler := sortEntries (myHandler s2)\<rparr>;
                   pickedObj = getIntoNodePath (myHandler s3 ! 0);
                   pickedObj1 = findNetTag ''clickable'' pickedObj
               in if \<not> isEmpty pickedObj1 then HandlePickedObject toInt pickedObj1 s3
                  else (None, s3))
            else (None, s2)))"

definition onMouseEvent ::
    "(string \<Rightarrow> int option) \<Rightarrow> (real \<times> real \<Rightarrow> entry list) \<Rightarrow> string \<Rightarrow> bool \<Rightarrow>
     cInteraction \<Rightarrow> cInteraction outcome" where
  "onMouseEvent toInt collide event press s =
     (if event = ''right'' then
        (let s1 = s\<lparr>base := (base s)\<lparr>rotateCamera := press\<rparr>\<rparr>;
             mw = mouseWatcherNode (base s1)
         in if hasMouse mw
            then (None, s1\<lparr>mouseX_last := Some (getMouseX mw), mouseY_last := Some (getMouseY mw)\<rparr>)
            else (None, s1\<lparr>mouseX_last := Some 0, mouseY_last := Some 0\<rparr>))
      else if event = ''left'' \<and> press then onClickObject toInt collide s
      else (None, s))"

subsection \<open>Camera\<close>

text \<open>
  Numbers are reals: the arithmetic of the frame update is modelled exactly, without
  floating-point rounding.  \<open>getkey\<close> is \<^verbatim>\<open>self.keys[k]\<close> followed by the rest of the
  method.
\<close>

definition getkey ::
    "cInteraction \<Rightarrow> string \<Rightarrow> (real \<Rightarrow> cInteraction outcome) \<Rightarrow> cInteraction outcome" where
  "getkey s k f = (case keys s k of None \<Rightarrow> (Some (KeyError k), s) | Some v \<Rightarrow> f (real_of_int v))"

text \<open>Lines 44 to 52: the mouse deltas, and the rest of the method run on them.\<close>

definition mouse_delta ::
    "cInteraction \<Rightarrow> (real \<Rightarrow> real \<Rightarrow> cInteraction \<Rightarrow> cInteraction outcome) \<Rightarrow> cInteraction outcome" where
  "mouse_delta s f =
     (let mw = mouseWatcherNode (base s) in
      if hasMouse mw \<and> rotateCamera (base s) then
        (case mouseX_last s of
           None \<Rightarrow> (Some (AttributeError ''mouseX_last''), s)
         | Some lx \<Rightarrow>
        (case mouseY_last s of
           None \<Rightarrow> (Some (AttributeError ''mouseY_last''), s)
         | Some ly \<Rightarrow>
             f (getMouseX mw - lx) (getMouseY mw - ly)
               (s\<lparr>mouseX_last := Some (getMouseX mw), mouseY_last := Some (getMouseY mw)\<rparr>)))
      else f 0 0 s)"

text \<open>\<open>dt\<close> is the value of \<^verbatim>\<open>globalClock.getDt()\<close> in this frame.\<close>

definition UpdateCameraMovement :: "real \<Rightarrow> cInteraction \<Rightarrow> cInteraction outcome" where
  "UpdateCameraMovement dt s =
     (let spd = (if speedBoost s then speed (base s) * 4 else speed (base s)) in
      mouse_delta s (\<lambda>deltaX deltaY s1.
        let deltaT = (if dt > 0.05 then 0.05 else dt) in
        getkey s1 ''a'' (\<lambda>ka. getkey s1 ''d'' (\<lambda>kd.
        let move_x = deltaT * spd * - ka + deltaT * spd * kd in
        getkey s1 ''s'' (\<lambda>ks. getkey s1 ''w'' (\<lambda>kw.
        let move_y = deltaT * spd * ks + deltaT * spd * - kw in
        getkey s1 ''shift'' (\<lambda>kshift. getkey s1 ''control'' (\<lambda>kcontrol.
        let s2 = s1\<lparr>base := (base s1)\<lparr>move_z := move_z (base s1)
                        + (deltaT * spd * kshift + deltaT * spd * - kcontrol)\<rparr>\<rparr>;
            s3 = s2\<lparr>base := (base s2)\<lparr>camera := camera (base s2) @ [setPos_relative move_x (- move_y) 0]\<rparr>\<rparr>;
            s4 = s3\<lparr>base := (base s3)\<lparr>camera := camera (base s3) @ [setZ (move_z (base s3))]\<rparr>\<rparr>
        in
        getkey s4 ''arrow_left'' (\<lambda>kleft. getkey s4 ''arrow_right'' (\<lambda>kright.
        let s5 = s4\<lparr>base := (base s4)\<lparr>camHeading := camHeading (base s4)
                        + (deltaT * 90 * kleft + deltaT * 90 * - kright + deltaT * 5000 * - deltaX)\<rparr>\<rparr>
        in
        getkey s5 ''arrow_up'' (\<lambda>kup. getkey s5 ''arrow_down'' (\<lambda>kdown.
        let s6 = s5\<lparr>base := (base s5)\<lparr>camPitch := camPitch (base s5)
                        + (deltaT * 90 * kup + deltaT * 90 * - kdown + deltaT * 5000 * deltaY)\<rparr>\<rparr>
        in (None, s6\<lparr>base := (base s6)\<lparr>camera := camera (base s6)
                        @ [setHpr (camHeading (base s6)) (camPitch (base s6)) 0]\<rparr>\<rparr>)))))))))))))"

section \<open>HotgymExample/hotgym.py\<close>

subsection \<open>Reading the input file\<close>

text \<open>
  \<open>rows\<close> is what \<^verbatim>\<open>csv.reader\<close> yields for the file, in order (for a file without
  quoted line breaks, one row per line).  \<^verbatim>\<open>next\<close> on an exhausted reader raises
  \<^verbatim>\<open>StopIteration\<close>.
\<close>

definition next_row :: "'a list \<Rightarrow> exn + ('a \<times> 'a list)" where
  "next_row rows = (case rows of [] \<Rightarrow> Inl StopIteration | r # rest \<Rightarrow> Inr (r, rest))"

fun append_all :: "'a list \<Rightarrow> 'a list \<Rightarrow> 'a list" where
  "append_all records [] = records"
| "append_all records (r # reader) = append_all (records @ [r]) reader"

definition read_records :: "string list list \<Rightarrow> exn + string list list" where
  "read_records rows =
     (case next_row rows of
        Inl e \<Rightarrow> Inl e
      | Inr (headers, reader1) \<Rightarrow>
     (case next_row reader1 of
        Inl e \<Rightarrow> Inl e
      | Inr (_, reader2) \<Rightarrow>
     (case next_row reader2 of
        Inl e \<Rightarrow> Inl e
      | Inr (_, reader3) \<Rightarrow> Inr (append_all [] reader3))))"

subsection \<open>The data exchanged with the visualization\<close>

text \<open>
  The classes of \<^verbatim>\<open>pandaComm.dataExchange\<close> and \<^verbatim>\<open>PandaServer\<close> are not in the
  source files; their fields are the ones \<^verbatim>\<open>hotgym.py\<close> reads and writes.
\<close>

record SDR =
  sparse :: "nat list"
  sdr_size :: nat

record dataInput =
  stringValue :: string
  bits :: "nat list"
  count :: nat

record dataLayer =
  columnCount :: nat
  cellsPerColumn :: nat
  activeColumns :: "nat list"
  winnerCells :: "nat list"
  predictiveCells :: "nat list"
  proximalInputs :: "string list"

record dataHTMObject =
  inputs :: "string \<rightharpoonup> dataInput"
  layers :: "string \<rightharpoonup> dataLayer"

record ServerData =
  HTMObjects :: "string \<rightharpoonup> dataHTMObject"

text \<open>
  References to the objects shared with the server thread: the server reads the same
  \<^verbatim>\<open>serverData\<close>, pooler and memory objects the main thread writes.
\<close>

datatype objref = ref_serverData | ref_sp | ref_tm

text \<open>
  Modelled from the spec: \<^verbatim>\<open>NewStateDataReady\<close> (not in the source files) tells the
  server that a new state is ready; \<open>newStateData\<close> logs, per call, the
  \<^verbatim>\<open>serverData\<close> the server can read at that moment.  \<open>runInLoop\<close> and
  \<open>runOneStep\<close> are the two flags the server thread sets.
\<close>

record PandaServer =
  ps_serverData :: "objref option"
  spatialPoolers :: "string \<rightharpoonup> objref"
  temporalMemories :: "string \<rightharpoonup> objref"
  newStateData :: "ServerData list"
  runInLoop :: bool
  runOneStep :: bool

definition NewStateDataReady :: "ServerData \<Rightarrow> PandaServer \<Rightarrow> PandaServer" where
  "NewStateDataReady sd ps = ps\<lparr>newStateData := newStateData ps @ [sd]\<rparr>"

text \<open>
  \<^verbatim>\<open>BuildPandaSystem\<close>.  A fresh \<^verbatim>\<open>dataInput\<close> and the list fields of a fresh
  \<^verbatim>\<open>dataLayer\<close> are taken to be empty.
\<close>

definition new_dataInput :: dataInput where
  "new_dataInput = \<lparr>stringValue = [], bits = [], count = 0\<rparr>"

definition new_dataLayer :: "nat \<Rightarrow> nat \<Rightarrow> dataLayer" where
  "new_dataLayer cols cells =
     \<lparr>columnCount = cols, cellsPerColumn = cells, activeColumns = [], winnerCells = [],
      predictiveCells = [], proximalInputs = []\<rparr>"

definition BuildPandaSystem :: ServerData where
  "BuildPandaSystem =
     (let ob0 = \<lparr>inputs = Map.empty, layers = Map.empty\<rparr>;
          ob1 = ob0\<lparr>inputs := (inputs ob0)(''SL_Consumption'' \<mapsto> new_dataInput)\<rparr>;
          ob2 = ob1\<lparr>inputs := (inputs ob1)(''SL_TimeOfDay'' \<mapsto> new_dataInput)\<rparr>;
          ob3 = ob2\<lparr>layers := (layers ob2)(''SensoryLayer'' \<mapsto> new_dataLayer 1638 13)\<rparr>;
          ob4 = ob3\<lparr>layers := (layers ob3)(''SensoryLayer'' \<mapsto>
                   (new_dataLayer 1638 13)\<lparr>proximalInputs := [''SL_Consumption'', ''SL_TimeOfDay'']\<rparr>)\<rparr>
      in \<lparr>HTMObjects = Map.empty(''HTM1'' \<mapsto> ob4)\<rparr>)"

text \<open>
  An assignment \<^verbatim>\<open>serverData.HTMObjects[o].inputs[i].field = v\<close>: each subscript
  raises \<^verbatim>\<open>KeyError\<close> on a missing key.
\<close>

definition set_input ::
    "string \<Rightarrow> string \<Rightarrow> (dataInput \<Rightarrow> dataInput) \<Rightarrow> ServerData \<Rightarrow> ServerData outcome" where
  "set_input ob i f sd =
     (case HTMObjects sd ob of
        None \<Rightarrow> (Some (KeyError ob), sd)
      | Some x \<Rightarrow>
         (case inputs x i of
            None \<Rightarrow> (Some (KeyError i), sd)
          | Some y \<Rightarrow>
              (None, sd\<lparr>HTMObjects := (HTMObjects sd)(ob \<mapsto> x\<lparr>inputs := (inputs x)(i \<mapsto> f y)\<rparr>)\<rparr>)))"

definition set_layer ::
    "string \<Rightarrow> string \<Rightarrow> (dataLayer \<Rightarrow> dataLayer) \<Rightarrow> ServerData \<Rightarrow> ServerData outcome" where
  "set_layer ob l f sd =
     (case HTMObjects sd ob of
        None \<Rightarrow> (Some (KeyError ob), sd)
      | Some x \<Rightarrow>
         (case layers x l of
            None \<Rightarrow> (Some (KeyError l), sd)
          | Some y \<Rightarrow>
              (None, sd\<lparr>HTMObjects := (HTMObjects sd)(ob \<mapsto> x\<lparr>layers := (layers x)(l \<mapsto> f y)\<rparr>)\<rparr>)))"

subsection \<open>The external learning library\<close>

text \<open>
  The encoders, the spatial pooler, the temporal memory, the predictor and the anomaly
  history belong to the external library: they are parameters.  \<open>'d\<close> is a parsed date,
  \<open>'f\<close> a float, \<open>'h\<close> the state of all the library's objects together.  Parsing a
  date or a float and truncating a float to an integer can raise (\<open>None\<close>); the other
  calls are taken to return.  The \<^verbatim>\<open>Metrics\<close> objects and the printed lines are left
  out: nothing reads them.
\<close>

record ('d, 'f, 'h) htm =
  strptime :: "string \<Rightarrow> 'd option"
  to_float :: "string \<Rightarrow> 'f option"
  format_2f :: "'f \<Rightarrow> string"
  date_encode :: "'d \<Rightarrow> SDR"
  scalar_encode :: "'f \<Rightarrow> SDR"
  concatenate :: "SDR \<Rightarrow> SDR \<Rightarrow> SDR"
  sp_compute :: "'h \<Rightarrow> SDR \<Rightarrow> 'h \<times> SDR"
  tm_activateDendrites :: "'h \<Rightarrow> 'h"
  tm_getPredictiveCells :: "'h \<Rightarrow> SDR"
  tm_getWinnerCells :: "'h \<Rightarrow> SDR"
  tm_activateCells :: "'h \<Rightarrow> SDR \<Rightarrow> 'h"
  tm_getActiveCells :: "'h \<Rightarrow> SDR"
  tm_cellsToColumns :: "'h \<Rightarrow> SDR \<Rightarrow> SDR"
  predictor_infer :: "'h \<Rightarrow> SDR \<Rightarrow> nat \<Rightarrow> 'f list"
  argmax :: "'f list \<Rightarrow> nat"
  calculateRawAnomaly :: "SDR \<Rightarrow> SDR \<Rightarrow> 'f"
  anomalyProbability :: "'h \<Rightarrow> 'f \<Rightarrow> 'f \<Rightarrow> 'h \<times> 'f"
  int_of_float :: "'f \<Rightarrow> int option"
  predictor_learn :: "'h \<Rightarrow> nat \<Rightarrow> SDR \<Rightarrow> int \<Rightarrow> 'h"

subsection \<open>The state of \<^verbatim>\<open>main\<close>\<close>

datatype prediction = NaN | Predicted nat

text \<open>The locals one iteration carries from its first half to its second.\<close>

record 'f locals =
  consumption :: 'f
  loc_activeColumns :: SDR
  predictiveCellsSDR :: SDR

text \<open>
  Where the main thread stands: at the head of the loop, at the test of the busy-wait
  (line 192), at the assignment after it (line 194), before the second half of the
  iteration (line 199), after the prediction shift (line 237), or stopped by an exception.
\<close>

datatype 'f loc =
    LoopHead
  | Waiting "'f locals"
  | Resetting "'f locals"
  | Learning "'f locals"
  | Finished
  | Raised exn

record ('f, 'h) mstate =
  pc :: "'f loc"
  m_count :: nat
  lib :: 'h
  m_inputs :: "'f list"
  anomaly :: "'f list"
  anomalyProb :: "'f list"
  predictions :: "(nat \<times> prediction list) list"
  serverData :: ServerData
  pandaServer :: PandaServer

definition init_state :: "'h \<Rightarrow> ServerData \<Rightarrow> PandaServer \<Rightarrow> ('f, 'h) mstate" where
  "init_state h sd ps =
     \<lparr>pc = LoopHead, m_count = 0, lib = h, m_inputs = [], anomaly = [], anomalyProb = [],
      predictions = [(1, []), (5, [])], serverData = sd, pandaServer = ps\<rparr>"

subsection \<open>One iteration, first half: lines 143 to 189\<close>

text \<open>Lines 173 to 183, in order; a \<^verbatim>\<open>KeyError\<close> keeps what was written before it.\<close>

definition fill_serverData ::
    "string \<Rightarrow> string \<Rightarrow> SDR \<Rightarrow> SDR \<Rightarrow> SDR \<Rightarrow> SDR \<Rightarrow> SDR \<Rightarrow> ServerData \<Rightarrow> ServerData outcome" where
  "fill_serverData consumptionString dateField consumptionBits dateBits activeCols winners
       predictive sd =
     and_then (set_input ''HTM1'' ''SL_Consumption'' (\<lambda>i. i\<lparr>stringValue := consumptionString\<rparr>) sd)
     (\<lambda>sd. and_then (set_input ''HTM1'' ''SL_Consumption'' (\<lambda>i. i\<lparr>bits := sparse consumptionBits\<rparr>) sd)
     (\<lambda>sd. and_then (set_input ''HTM1'' ''SL_Consumption'' (\<lambda>i. i\<lparr>count := sdr_size consumptionBits\<rparr>) sd)
     (\<lambda>sd. and_then (set_input ''HTM1'' ''SL_TimeOfDay'' (\<lambda>i. i\<lparr>stringValue := dateField\<rparr>) sd)
     (\<lambda>sd. and_then (set_input ''HTM1'' ''SL_TimeOfDay'' (\<lambda>i. i\<lparr>bits := sparse dateBits\<rparr>) sd)
     (\<lambda>sd. and_then (set_input ''HTM1'' ''SL_TimeOfDay'' (\<lambda>i. i\<lparr>count := sdr_size dateBits\<rparr>) sd)
     (\<lambda>sd. and_then (set_layer ''HTM1'' ''SensoryLayer'' (\<lambda>l. l\<lparr>activeColumns := sparse activeCols\<rparr>) sd)
     (\<lambda>sd. and_then (set_layer ''HTM1'' ''SensoryLayer'' (\<lambda>l. l\<lparr>winnerCells := sparse winners\<rparr>) sd)
     (\<lambda>sd. set_layer ''HTM1'' ''SensoryLayer'' (\<lambda>l. l\<lparr>predictiveCells := sparse predictive\<rparr>) sd))))))))"

text \<open>
  The result is the exception raised, or the locals the second half needs, together
  with the state as the first half leaves it.
\<close>

definition publish ::
    "('d, 'f, 'h) htm \<Rightarrow> string list \<Rightarrow> ('f, 'h) mstate \<Rightarrow> (exn + 'f locals) \<times> ('f, 'h) mstate" where
  "publish L record s =
     (case py_index record 0 of
        None \<Rightarrow> (Inl IndexError, s)
      | Some field0 \<Rightarrow>
     (case strptime L field0 of
        None \<Rightarrow> (Inl ValueError, s)
      | Some dateString \<Rightarrow>
     (case py_index record 1 of
        None \<Rightarrow> (Inl IndexError, s)
      | Some field1 \<Rightarrow>
     (case to_float L field1 of
        None \<Rightarrow> (Inl ValueError, s)
      | Some c \<Rightarrow>
         (let s1 = s\<lparr>m_inputs := m_inputs s @ [c]\<rparr>;
              dateBits = date_encode L dateString;
              consumptionBits = scalar_encode L c;
              encoding = concatenate L consumptionBits dateBits;
              (h1, activeCols) = sp_compute L (lib s1) encoding;
              h2 = tm_activateDendrites L h1;
              predictive = tm_getPredictiveCells L h2;
              s2 = s1\<lparr>lib := h2\<rparr>
          in case fill_serverData (''consumption: '' @ format_2f L c) field0 consumptionBits
                    dateBits activeCols (tm_getWinnerCells L h2) predictive (serverData s2) of
               (Some e, sd) \<Rightarrow> (Inl e, s2\<lparr>serverData := sd\<rparr>)
             | (None, sd) \<Rightarrow>
                 (let s3 = s2\<lparr>serverData := sd\<rparr>;
                      ps1 = (pandaServer s3)\<lparr>ps_serverData := Some ref_serverData\<rparr>;
                      ps2 = ps1\<lparr>spatialPoolers := (spatialPoolers ps1)(''HTM1'' \<mapsto> ref_sp)\<rparr>;
                      ps3 = ps2\<lparr>temporalMemories := (temporalMemories ps2)(''HTM1'' \<mapsto> ref_tm)\<rparr>;
                      ps4 = NewStateDataReady (serverData s3) ps3
                  in (Inr \<lparr>consumption = c, loc_activeColumns = activeCols,
                            predictiveCellsSDR = predictive\<rparr>,
                      s3\<lparr>pandaServer := ps4\<rparr>)))))))"

subsection \<open>One iteration, second half: lines 199 to 221\<close>

text \<open>
  \<^verbatim>\<open>predictions[n].append(v)\<close>.  The dictionary is local to \<^verbatim>\<open>main\<close> and always has
  the keys 1 and 5, so the subscript cannot raise.
\<close>

definition append_prediction ::
    "nat \<Rightarrow> prediction \<Rightarrow> (nat \<times> prediction list) list \<Rightarrow> (nat \<times> prediction list) list" where
  "append_prediction n v preds = map (\<lambda>(k, pl). if k = n then (k, pl @ [v]) else (k, pl)) preds"

definition predict :: "('d, 'f, 'h) htm \<Rightarrow> (nat \<Rightarrow> 'f list) \<Rightarrow> nat \<Rightarrow> prediction" where
  "predict L pdf n = (if pdf n \<noteq> [] then Predicted (argmax L (pdf n) * 1) else NaN)"

definition learn ::
    "('d, 'f, 'h) htm \<Rightarrow> 'f locals \<Rightarrow> ('f, 'h) mstate \<Rightarrow> ('f, 'h) mstate outcome" where
  "learn L lc s =
     (let h1 = tm_activateCells L (lib s) (loc_activeColumns lc);
          pdf = predictor_infer L h1 (tm_getActiveCells L h1);
          s1 = s\<lparr>lib := h1,
                 predictions := fold (\<lambda>n. append_prediction n (predict L pdf n)) [1, 5] (predictions s)\<rparr>;
          rawAnomaly = calculateRawAnomaly L (loc_activeColumns lc)
                         (tm_cellsToColumns L h1 (predictiveCellsSDR lc));
          (h2, anomalyLikelihood) = anomalyProbability L h1 (consumption lc) rawAnomaly;
          s2 = s1\<lparr>lib := h2, anomaly := anomaly s1 @ [rawAnomaly],
                  anomalyProb := anomalyProb s1 @ [anomalyLikelihood]\<rparr>
      in case int_of_float L (consumption lc) of
           None \<Rightarrow> (Some ValueError, s2)
         | Some bucket \<Rightarrow>
             (None, s2\<lparr>lib := predictor_learn L h2 (m_count s2) (tm_getActiveCells L h2) bucket\<rparr>))"

subsection \<open>After the loop: lines 233 to 237\<close>

text \<open>
  One round of the inner loop inserts a NaN in front and pops the last element; the
  list is not empty after the insertion, so \<^verbatim>\<open>pop\<close> cannot raise.
\<close>

definition shift_once :: "prediction list \<Rightarrow> prediction list" where
  "shift_once pred_list = butlast (NaN # pred_list)"

primrec shift_list :: "nat \<Rightarrow> prediction list \<Rightarrow> prediction list" where
  "shift_list 0 pred_list = pred_list"
| "shift_list (Suc x) pred_list = shift_list x (shift_once pred_list)"

definition shift_predictions :: "(nat \<times> prediction list) list \<Rightarrow> (nat \<times> prediction list) list" where
  "shift_predictions preds = map (\<lambda>(n_steps, pred_list). (n_steps, shift_list n_steps pred_list)) preds"

subsection \<open>The main thread, step by step, and the server thread's writes\<close>

text \<open>
  One step of the main thread.  The busy-wait tests the two flags once per step; the
  server thread can write the flags between any two steps.  \<^verbatim>\<open>main\<close> is followed up to
  the prediction shift; the accuracy figures and the plot after it are not modelled.
\<close>

definition main_step ::
    "('d, 'f, 'h) htm \<Rightarrow> string list list \<Rightarrow> ('f, 'h) mstate \<Rightarrow> ('f, 'h) mstate" where
  "main_step L records s =
     (case pc s of
        LoopHead \<Rightarrow>
          if m_count s < length records then
            (case publish L (records ! m_count s) s of
               (Inl e, s1) \<Rightarrow> s1\<lparr>pc := Raised e\<rparr>
             | (Inr lc, s1) \<Rightarrow> s1\<lparr>pc := Waiting lc\<rparr>)
          else s\<lparr>predictions := shift_predictions (predictions s), pc := Finished\<rparr>
      | Waiting lc \<Rightarrow>
          if \<not> runInLoop (pandaServer s) \<and> \<not> runOneStep (pandaServer s) then s
          else s\<lparr>pc := Resetting lc\<rparr>
      | Resetting lc \<Rightarrow>
          s\<lparr>pandaServer := (pandaServer s)\<lparr>runOneStep := False\<rparr>, pc := Learning lc\<rparr>
      | Learning lc \<Rightarrow>
          (case learn L lc s of
             (Some e, s1) \<Rightarrow> s1\<lparr>pc := Raised e\<rparr>
           | (None, s1) \<Rightarrow> s1\<lparr>m_count := m_count s1 + 1, pc := LoopHead\<rparr>)
      | Finished \<Rightarrow> s
      | Raised e \<Rightarrow> s)"

datatype event = Main | SetRunInLoop bool | SetRunOneStep bool

definition step ::
    "('d, 'f, 'h) htm \<Rightarrow> string list list \<Rightarrow> event \<Rightarrow> ('f, 'h) mstate \<Rightarrow> ('f, 'h) mstate" where
  "step L records e s =
     (case e of
        Main \<Rightarrow> main_step L records s
      | SetRunInLoop b \<Rightarrow> s\<lparr>pandaServer := (pandaServer s)\<lparr>runInLoop := b\<rparr>\<rparr>
      | SetRunOneStep b \<Rightarrow> s\<lparr>pandaServer := (pandaServer s)\<lparr>runOneStep := b\<rparr>\<rparr>)"

definition run ::
    "('d, 'f, 'h) htm \<Rightarrow> string list list \<Rightarrow> event list \<Rightarrow> ('f, 'h) mstate \<Rightarrow> ('f, 'h) mstate" where
  "run L records evs s = fold (step L records) evs s"

subsection \<open>Construction, and a small scene to run the handlers on\<close>

text \<open>\<^verbatim>\<open>__init__\<close>: the fields \<open>keys\<close>, \<open>mouseX_last\<close>, \<open>mouseY_last\<close>, \<open>pickerRay\<close> and
  \<open>myHandler\<close> come into being later (\<^verbatim>\<open>SetupKeys\<close>, \<^verbatim>\<open>SetupOnClick\<close>, mouse events).\<close>

definition init_cInteraction :: "cBase \<Rightarrow> cGUI \<Rightarrow> cClient \<Rightarrow> store \<Rightarrow> cInteraction" where
  "init_cInteraction b g c h =
     \<lparr>base = b, gui = g, client = c, heap = h, focusedCell = None, focusedPath = None,
      speedBoost = False, keys = Map.empty, mouseX_last = None, mouseY_last = None,
      pickerRay = None, myHandler = [], handled = []\<rparr>"

text \<open>
  A scene with one object \<^verbatim>\<open>HTM1\<close>, one layer \<^verbatim>\<open>L1\<close> of two columns (objects 10 and
  11) with two cells each (objects 100, 101 and 110, 111), and the mouse inside the window.
\<close>

definition demo_store :: store where
  "demo_store =
     \<lparr>cell_column = (\<lambda>c. if c = 100 \<or> c = 101 then 10 else 11),
      column_cells = (\<lambda>k. if k = 10 then [100, 101] else if k = 11 then [110, 111] else []),
      focused = {}, focus_calls = []\<rparr>"

definition demo_base :: cBase where
  "demo_base =
     \<lparr>speed = 20, move_z = 0, camHeading = 0, camPitch = 0, rotateCamera = False,
      mouseWatcherNode = \<lparr>hasMouse = True, getMouseX = 1/4, getMouseY = 1/2\<rparr>,
      camera = [],
      vHTMObjects = Map.empty(''HTM1'' \<mapsto> \<lparr>vlayers = Map.empty(''L1'' \<mapsto> \<lparr>corticalColumns = [10, 11]\<rparr>)\<rparr>),
      accepted = [], mouseDisabled = False\<rparr>"

definition demo_gui :: cGUI where
  "demo_gui =
     \<lparr>gui_focusedCell = None, gui_focusedPath = None, columnID = 0, cellID = 0,
      showProximalSynapses = True, showDistalSynapses = False, onSpeedBoostChanged = []\<rparr>"

definition demo_client :: cClient where
  "demo_client = \<lparr>terminateClientThread = False, requests = []\<rparr>"

definition demo :: cInteraction where
  "demo = SetupKeys (init_cInteraction demo_base demo_gui demo_client demo_store)"

definition demo_held :: cInteraction where
  "demo_held = demo\<lparr>keys := (keys demo)(''space'' \<mapsto> 1), speedBoost := True\<rparr>"

definition demo_rotating :: cInteraction where
  "demo_rotating =
     demo\<lparr>keys := (keys demo)(''w'' \<mapsto> 1, ''arrow_left'' \<mapsto> 1),
          base := (base demo)\<lparr>rotateCamera := True\<rparr>,
          mouseX_last := Some 0, mouseY_last := Some 0\<rparr>"

subsection \<open>The focus invariant\<close>

text \<open>The cells marked as focused are exactly the one \<open>focusedCell\<close> names, if any.\<close>

definition focus_inv :: "cInteraction \<Rightarrow> bool" where
  "focus_inv s = (focused (heap s) = (case focusedCell s of None \<Rightarrow> {} | Some c \<Rightarrow> {c}))"

subsection \<open>A click in the small scene\<close>

text \<open>Decimal digits only: enough of Python's \<^verbatim>\<open>int\<close> for the tags of the small scene.\<close>

definition demo_toInt :: "string \<Rightarrow> int option" where
  "demo_toInt t =
     (if t \<noteq> [] \<and> list_all (\<lambda>c. c \<in> set ''0123456789'') t
      then Some (int (foldl (\<lambda>a c. 10 * a + (of_char c - 48)) 0 t))
      else None)"

definition demo_cell_path :: NodePath where
  "demo_cell_path =
     [\<lparr>name = ''render'', tags = Map.empty\<rparr>,
      \<lparr>name = ''HTM1'', tags = Map.empty\<rparr>,
      \<lparr>name = ''L1'', tags = Map.empty\<rparr>,
      \<lparr>name = ''column'', tags = Map.empty(''id'' \<mapsto> ''1'')\<rparr>,
      \<lparr>name = ''cell'', tags = Map.empty(''clickable'' \<mapsto> ''0'')\<rparr>]"

definition demo_collide :: "real \<times> real \<Rightarrow> entry list" where
  "demo_collide ray =
     (if ray = (1/4, 1/2)
      then [\<lparr>entry_dist = 7, getIntoNodePath = [\<lparr>name = ''render'', tags = Map.empty\<rparr>,
                                                   \<lparr>name = ''floor'', tags = Map.empty\<rparr>]\<rparr>,
            \<lparr>entry_dist = 3, getIntoNodePath = demo_cell_path @ [\<lparr>name = ''geom'', tags = Map.empty\<rparr>]\<rparr>]
      else [])"

definition demo_focused :: cInteraction where
  "demo_focused = demo\<lparr>focusedCell := Some 100, heap := (heap demo)\<lparr>focused := {100}\<rparr>\<rparr>"

subsection \<open>Measures and invariants of a run of \<^verbatim>\<open>main\<close>\<close>

text \<open>
  \<open>mid\<close> is 1 while an iteration is between its two halves.  \<open>signals\<close> counts the
  calls of \<^verbatim>\<open>NewStateDataReady\<close>.  \<open>consumption_of\<close> is what line 146 reads from a
  record; a record is \<open>well_formed\<close> when lines 144, 146 and 221 do not raise on it.
  \<open>has_keys\<close>: the dictionaries hold what \<^verbatim>\<open>BuildPandaSystem\<close> put there.
\<close>

definition mid :: "('f, 'h) mstate \<Rightarrow> nat" where
  "mid s = (case pc s of Waiting _ \<Rightarrow> 1 | Resetting _ \<Rightarrow> 1 | Learning _ \<Rightarrow> 1 | _ \<Rightarrow> 0)"

definition signals :: "('f, 'h) mstate \<Rightarrow> nat" where
  "signals s = length (newStateData (pandaServer s))"

definition consumption_of :: "('d, 'f, 'h) htm \<Rightarrow> string list \<Rightarrow> 'f option" where
  "consumption_of L record =
     (case py_index record 1 of None \<Rightarrow> None | Some field1 \<Rightarrow> to_float L field1)"

definition well_formed :: "('d, 'f, 'h) htm \<Rightarrow> string list \<Rightarrow> bool" where
  "well_formed L record =
     ((case py_index record 0 of None \<Rightarrow> False | Some field0 \<Rightarrow> strptime L field0 \<noteq> None)
      \<and> (case consumption_of L record of None \<Rightarrow> False | Some c \<Rightarrow> int_of_float L c \<noteq> None))"

definition has_keys :: "ServerData \<Rightarrow> bool" where
  "has_keys sd =
     (case HTMObjects sd ''HTM1'' of
        None \<Rightarrow> False
      | Some ob \<Rightarrow> inputs ob ''SL_Consumption'' \<noteq> None \<and> inputs ob ''SL_TimeOfDay'' \<noteq> None
                   \<and> layers ob ''SensoryLayer'' \<noteq> None)"

text \<open>
  What holds of every state of a run that started with \<open>n0\<close> signals already sent:
  unless an exception stopped the run, one signal was sent and one input was recorded
  per record begun, in file order, and each prediction list has one entry per record
  completed.
\<close>

definition main_inv :: "('d, 'f, 'h) htm \<Rightarrow> string list list \<Rightarrow> nat \<Rightarrow> ('f, 'h) mstate \<Rightarrow> bool" where
  "main_inv L records n0 s =
     (case pc s of
        Raised e \<Rightarrow> n0 + m_count s \<le> signals s \<and> signals s \<le> n0 + m_count s + 1
      | _ \<Rightarrow>
          m_count s + mid s \<le> length records
          \<and> (pc s = Finished \<longrightarrow> m_count s = length records)
          \<and> signals s = n0 + m_count s + mid s
          \<and> map Some (m_inputs s) = map (consumption_of L) (take (m_count s + mid s) records)
          \<and> map fst (predictions s) = [1, 5]
          \<and> (\<forall>x\<in>set (predictions s). length (snd x) = m_count s))"

text \<open>
  The number of times the server thread sets \<open>runOneStep\<close> in a schedule, and the
  records a state has completed or is allowed to complete.
\<close>

definition triggers :: "event list \<Rightarrow> nat" where
  "triggers evs = length (filter (\<lambda>e. e = SetRunOneStep True) evs)"

definition flag :: "('f, 'h) mstate \<Rightarrow> nat" where
  "flag s = (if runOneStep (pandaServer s) then 1 else 0)"

definition credit :: "('f, 'h) mstate \<Rightarrow> nat" where
  "credit s =
     m_count s + (case pc s of Resetting _ \<Rightarrow> 1 | Learning _ \<Rightarrow> 1 + flag s | _ \<Rightarrow> flag s)"

subsection \<open>A small library and input to run \<^verbatim>\<open>main\<close> on\<close>

text \<open>
  Dates are strings, floats are integers, and the library's state is the number of calls
  of \<^verbatim>\<open>activateCells\<close> so far.
\<close>

definition demo_htm :: "(string, int, nat) htm" where
  "demo_htm =
     \<lparr>strptime = (\<lambda>t. if t = [] then None else Some t),
      to_float = demo_toInt,
      format_2f = (\<lambda>c. if c = 5 then ''5.00'' else ''7.00''),
      date_encode = (\<lambda>d. \<lparr>sparse = [if d = ''7/2/10 0:00'' then 11 else 12], sdr_size = 20\<rparr>),
      scalar_encode = (\<lambda>c. \<lparr>sparse = [nat c], sdr_size = 10\<rparr>),
      concatenate = (\<lambda>a b. \<lparr>sparse = sparse a @ map (\<lambda>i. i + sdr_size a) (sparse b),
                              sdr_size = sdr_size a + sdr_size b\<rparr>),
      sp_compute = (\<lambda>h e. (h, \<lparr>sparse = take 1 (sparse e), sdr_size = 4\<rparr>)),
      tm_activateDendrites = (\<lambda>h. h),
      tm_getPredictiveCells = (\<lambda>h. \<lparr>sparse = [h], sdr_size = 8\<rparr>),
      tm_getWinnerCells = (\<lambda>h. \<lparr>sparse = [h + 1], sdr_size = 8\<rparr>),
      tm_activateCells = (\<lambda>h a. h + 1),
      tm_getActiveCells = (\<lambda>h. \<lparr>sparse = [h], sdr_size = 8\<rparr>),
      tm_cellsToColumns = (\<lambda>h c. c),
      predictor_infer = (\<lambda>h a n. if n = 1 then replicate (Suc h) 0 else []),
      argmax = (\<lambda>pdf. length pdf - 1),
      calculateRawAnomaly = (\<lambda>a p. 0),
      anomalyProbability = (\<lambda>h c a. (h, 0)),
      int_of_float = (\<lambda>c. Some c),
      predictor_learn = (\<lambda>h n a b. h)\<rparr>"

definition demo_rows :: "string list list" where
  "demo_rows =
     [[''timestamp'', ''consumption''], [''datetime'', ''float''], [''T'', ''''],
      [''7/2/10 0:00'', ''5''], [''7/2/10 1:00'', ''7'']]"

definition demo_records :: "string list list" where
  "demo_records = [[''7/2/10 0:00'', ''5''], [''7/2/10 1:00'', ''7'']]"

definition demo_server :: PandaServer where
  "demo_server =
     \<lparr>ps_serverData = None, spatialPoolers = Map.empty, temporalMemories = Map.empty,
      newStateData = [], runInLoop = False, runOneStep = False\<rparr>"

definition demo_init :: "(int, nat) mstate" where
  "demo_init = init_state 0 BuildPandaSystem demo_server"

text \<open>
  The schedule in which the server thread writes nothing and the main thread takes the
  four steps of an iteration \<open>n\<close> times, and then one step more.
\<close>

definition free_run :: "nat \<Rightarrow> event list" where
  "free_run n = concat (replicate n [Main, Main, Main, Main]) @ [Main]"

definition demo_looping :: "(int, nat) mstate" where
  "demo_looping = init_state 0 BuildPandaSystem (demo_server\<lparr>runInLoop := True\<rparr>)"

definition demo_waiting :: "(int, nat) mstate" where
  "demo_waiting = main_step demo_htm demo_records demo_init"

definition demo_triggered :: "(int, nat) mstate" where
  "demo_triggered = step demo_htm demo_records (SetRunOneStep True) demo_waiting"

text \<open>
  The prediction lines 207 to 212 compute for the horizon \<open>n\<close> in the second half of
  the iteration that starts in state \<open>u\<close> with the locals \<open>lc\<close>.
\<close>

definition produced ::
    "('d, 'f, 'h) htm \<Rightarrow> 'f locals \<Rightarrow> ('f, 'h) mstate \<Rightarrow> nat \<Rightarrow> prediction" where
  "produced L lc u n =
     (let h1 = tm_activateCells L (lib u) (loc_activeColumns lc);
          pdf = predictor_infer L h1 (tm_getActiveCells L h1)
      in predict L pdf n)"

text \<open>
  A schedule in which the server sets \<open>runOneStep\<close> a second time after the main
  thread has left the wait and before it has reset the flag.
\<close>

definition lost_trigger :: "event list" where
  "lost_trigger = [SetRunOneStep True, Main, SetRunOneStep True, Main, Main, Main]"

section \<open>Theorems: neuron\<close>

lemma CreateGfx_node:
  "\<exists>n'. CreateGfx loadModel n = Inr n' \<and> node n' \<noteq> None \<and> state n' = state n"
  by (simp add: CreateGfx_def UpdateState_def Let_def)

text \<open>
  C8.  For a neuron whose graphics node exists (as after \<^verbatim>\<open>CreateGfx\<close>),
  \<^verbatim>\<open>UpdateState\<close> returns normally; the node's colour is red (1,0,0,1) exactly when
  \<open>state\<close> is true and white (1,1,1,1) exactly when it is false; in both cases the
  render mode is set again to filled wireframe with the black wireframe colour (0,0,0,1);
  nothing else of the neuron or of the node changes.
\<close>

theorem UpdateState_color:
  assumes "node n = Some nd"
  shows "\<exists>c. UpdateState n =
             Inr (n\<lparr>node := Some (nd\<lparr>node_color := Some c,
                                        node_render_mode := Some (FilledWireframe black)\<rparr>)\<rparr>)
           \<and> (c = red \<longleftrightarrow> state n) \<and> (c = white \<longleftrightarrow> \<not> state n)"
  using assms by (simp add: UpdateState_def red_def white_def black_def)

theorem UpdateState_color_witness:
  "node \<lparr>state = True, node = Some (cube ''cube'')\<rparr> = Some (cube ''cube'')
   \<and> UpdateState \<lparr>state = True, node = Some (cube ''cube'')\<rparr> =
       Inr \<lparr>state = True,
            node = Some ((cube ''cube'')\<lparr>node_color := Some red,
                                          node_render_mode := Some (FilledWireframe black)\<rparr>)\<rparr>"
  using UpdateState_color [of "\<lparr>state = True, node = Some (cube ''cube'')\<rparr>" "cube ''cube''"]
  by auto

section \<open>Theorems: interaction, keyboard and camera\<close>

lemma keys_demo:
  "keys demo = [''arrow_left'' \<mapsto> 0, ''arrow_right'' \<mapsto> 0, ''arrow_up'' \<mapsto> 0,
                ''arrow_down'' \<mapsto> 0, ''a'' \<mapsto> 0, ''d'' \<mapsto> 0, ''w'' \<mapsto> 0, ''s'' \<mapsto> 0,
                ''shift'' \<mapsto> 0, ''control'' \<mapsto> 0, ''space'' \<mapsto> 0]"
  by (simp add: demo_def SetupKeys_def key_names_def setup_key_def init_cInteraction_def Let_def)

lemma base_demo:
  "speed (base demo) = 20" "move_z (base demo) = 0" "camHeading (base demo) = 0"
  "camPitch (base demo) = 0" "rotateCamera (base demo) = False" "camera (base demo) = []"
  "mouseWatcherNode (base demo) = \<lparr>hasMouse = True, getMouseX = 1/4, getMouseY = 1/2\<rparr>"
  "vHTMObjects (base demo) =
     Map.empty(''HTM1'' \<mapsto> \<lparr>vlayers = Map.empty(''L1'' \<mapsto> \<lparr>corticalColumns = [10, 11]\<rparr>)\<rparr>)"
  by (simp_all add: demo_def SetupKeys_def key_names_def setup_key_def init_cInteraction_def
        demo_base_def Let_def)

lemma fields_demo:
  "speedBoost demo = False" "gui demo = demo_gui" "client demo = demo_client"
  "heap demo = demo_store" "focusedCell demo = None" "focusedPath demo = None"
  "mouseX_last demo = None" "mouseY_last demo = None" "handled demo = []"
  by (simp_all add: demo_def SetupKeys_def key_names_def setup_key_def init_cInteraction_def Let_def)

text \<open>
  C10.  Every call of \<^verbatim>\<open>CloseApp\<close> ends with \<^verbatim>\<open>SystemExit\<close> raised by
  \<^verbatim>\<open>sys.exit(0)\<close>, and leaves the object as it was: the assignment
  \<^verbatim>\<open>self.client.terminateClientThread = True\<close> after it is never reached, so the flag
  keeps its value.
\<close>

theorem CloseApp_exits:
  "CloseApp s = (Some (SystemExit 0), s)
   \<and> terminateClientThread (client (snd (CloseApp s))) = terminateClientThread (client s)"
  by (simp add: CloseApp_def and_then_def sys_exit_def)

text \<open>
  C9.  \<^verbatim>\<open>onKey(key, value)\<close> first stores \<open>value\<close> under \<open>key\<close>; with \<open>sp\<close> the
  value then found under \<^verbatim>\<open>space\<close>, it flips \<open>speedBoost\<close> and reports the new value to
  the gui exactly when \<open>sp\<close> is truthy (not zero), and otherwise changes nothing else.
  So an event of any key toggles the boost while \<^verbatim>\<open>space\<close> is held.
\<close>

theorem onKey_toggles:
  assumes "((keys s)(key \<mapsto> v)) ''space'' = Some sp"
  shows "onKey key v s =
           (None, s\<lparr>keys := (keys s)(key \<mapsto> v),
                    speedBoost := (if sp \<noteq> 0 then \<not> speedBoost s else speedBoost s),
                    gui := (gui s)\<lparr>onSpeedBoostChanged :=
                       onSpeedBoostChanged (gui s) @ (if sp \<noteq> 0 then [\<not> speedBoost s] else [])\<rparr>\<rparr>)"
  using assms by (simp add: onKey_def Let_def)

text \<open>
  With \<^verbatim>\<open>space\<close> held and the boost on, pressing \<^verbatim>\<open>a\<close> switches the boost off, and
  releasing \<^verbatim>\<open>space\<close> itself toggles nothing.
\<close>

theorem onKey_toggles_witness:
  "((keys demo_held)(''a'' \<mapsto> 1)) ''space'' = Some 1
   \<and> fst (onKey ''a'' 1 demo_held) = None
   \<and> speedBoost (snd (onKey ''a'' 1 demo_held)) = False
   \<and> onSpeedBoostChanged (gui (snd (onKey ''a'' 1 demo_held))) = [False]
   \<and> ((keys demo_held)(''space'' \<mapsto> 0)) ''space'' = Some 0
   \<and> speedBoost (snd (onKey ''space'' 0 demo_held)) = True
   \<and> onSpeedBoostChanged (gui (snd (onKey ''space'' 0 demo_held))) = []"
proof -
  have a: "((keys demo_held)(''a'' \<mapsto> 1)) ''space'' = Some 1"
    by (simp add: demo_held_def keys_demo)
  have b: "((keys demo_held)(''space'' \<mapsto> 0)) ''space'' = Some 0"
    by simp
  show ?thesis
    using a onKey_toggles [OF a] onKey_toggles [OF b]
    by (simp add: demo_held_def fields_demo demo_gui_def)
qed

lemma mouse_delta_eq:
  assumes "hasMouse (mouseWatcherNode (base s)) \<and> rotateCamera (base s) \<longrightarrow>
             mouseX_last s = Some lx \<and> mouseY_last s = Some ly"
  shows "mouse_delta s f =
           (if hasMouse (mouseWatcherNode (base s)) \<and> rotateCamera (base s)
            then f (getMouseX (mouseWatcherNode (base s)) - lx) (getMouseY (mouseWatcherNode (base s)) - ly)
                   (s\<lparr>mouseX_last := Some (getMouseX (mouseWatcherNode (base s))),
                      mouseY_last := Some (getMouseY (mouseWatcherNode (base s)))\<rparr>)
            else f 0 0 s)"
  using assms by (simp add: mouse_delta_def Let_def)

text \<open>
  C6.  With the ten movement keys present in \<open>keys\<close>, \<^verbatim>\<open>UpdateCameraMovement\<close> returns
  normally.  The time step it applies is the frame time clamped to at most 0.05.  The
  camera is moved relative to itself by (d - a) sideways and (w - s) forwards, times the
  time step and the speed (four times the speed under speed boost); the height changes
  by (shift - control) at the same rate; heading and pitch change by the arrow keys at
  90 per second, and by the mouse deltas, which are the mouse's move since the last
  frame when the mouse is inside the window and \<open>rotateCamera\<close> is set, and zero
  otherwise.
\<close>

theorem UpdateCameraMovement_frame:
  fixes s :: cInteraction and dt :: real
  assumes ka: "keys s ''a'' = Some ka" and kd: "keys s ''d'' = Some kd"
      and kw: "keys s ''w'' = Some kw" and ks: "keys s ''s'' = Some ks"
      and ksh: "keys s ''shift'' = Some kshift" and kc: "keys s ''control'' = Some kcontrol"
      and kl: "keys s ''arrow_left'' = Some kleft" and kr: "keys s ''arrow_right'' = Some kright"
      and ku: "keys s ''arrow_up'' = Some kup" and kdn: "keys s ''arrow_down'' = Some kdown"
      and rot: "rotating = (hasMouse (mouseWatcherNode (base s)) \<and> rotateCamera (base s))"
      and last: "rotating \<longrightarrow> mouseX_last s = Some lx \<and> mouseY_last s = Some ly"
      and dX: "deltaX = (if rotating then getMouseX (mouseWatcherNode (base s)) - lx else 0)"
      and dY: "deltaY = (if rotating then getMouseY (mouseWatcherNode (base s)) - ly else 0)"
      and dT: "deltaT = min dt 0.05"
      and spd: "spd = (if speedBoost s then 4 * speed (base s) else speed (base s))"
      and mz: "z = move_z (base s) + deltaT * spd * (real_of_int kshift - real_of_int kcontrol)"
      and hd: "h = camHeading (base s) + deltaT * 90 * (real_of_int kleft - real_of_int kright)
                   - deltaT * 5000 * deltaX"
      and pt: "p = camPitch (base s) + deltaT * 90 * (real_of_int kup - real_of_int kdown)
                   + deltaT * 5000 * deltaY"
  shows "deltaT \<le> 0.05 \<and>
         UpdateCameraMovement dt s =
           (None,
            s\<lparr>base := (base s)\<lparr>move_z := z, camHeading := h, camPitch := p,
                 camera := camera (base s) @
                   [setPos_relative (deltaT * spd * (real_of_int kd - real_of_int ka))
                                    (deltaT * spd * (real_of_int kw - real_of_int ks)) 0,
                    setZ z, setHpr h p 0]\<rparr>,
              mouseX_last := (if rotating then Some (getMouseX (mouseWatcherNode (base s))) else mouseX_last s),
              mouseY_last := (if rotating then Some (getMouseY (mouseWatcherNode (base s))) else mouseY_last s)\<rparr>)"
proof -
  have clamp: "(if dt > 0.05 then 0.05 else dt) = deltaT"
    using dT by (simp add: min_def)
  have md: "mouse_delta s f =
           (if rotating
            then f deltaX deltaY
                   (s\<lparr>mouseX_last := Some (getMouseX (mouseWatcherNode (base s))),
                      mouseY_last := Some (getMouseY (mouseWatcherNode (base s)))\<rparr>)
            else f deltaX deltaY s)" for f
    using mouse_delta_eq [of s lx ly f] last rot dX dY by simp
  have "deltaT \<le> 0.05" using dT by simp
  moreover have "UpdateCameraMovement dt s = (None,
            s\<lparr>base := (base s)\<lparr>move_z := z, camHeading := h, camPitch := p,
                 camera := camera (base s) @
                   [setPos_relative (deltaT * spd * (real_of_int kd - real_of_int ka))
                                    (deltaT * spd * (real_of_int kw - real_of_int ks)) 0,
                    setZ z, setHpr h p 0]\<rparr>,
              mouseX_last := (if rotating then Some (getMouseX (mouseWatcherNode (base s))) else mouseX_last s),
              mouseY_last := (if rotating then Some (getMouseY (mouseWatcherNode (base s))) else mouseY_last s)\<rparr>)"
    unfolding UpdateCameraMovement_def md clamp
    using ka kd kw ks ksh kc kl kr ku kdn
    by (simp add: getkey_def Let_def spd mz hd pt algebra_simps)
  ultimately show ?thesis by simp
qed

lemma demo_rotating_keys:
  "keys demo_rotating ''a'' = Some 0" "keys demo_rotating ''d'' = Some 0"
  "keys demo_rotating ''w'' = Some 1" "keys demo_rotating ''s'' = Some 0"
  "keys demo_rotating ''shift'' = Some 0" "keys demo_rotating ''control'' = Some 0"
  "keys demo_rotating ''arrow_left'' = Some 1" "keys demo_rotating ''arrow_right'' = Some 0"
  "keys demo_rotating ''arrow_up'' = Some 0" "keys demo_rotating ''arrow_down'' = Some 0"
  by (simp_all add: demo_rotating_def keys_demo)

lemma demo_rotating_fields:
  "hasMouse (mouseWatcherNode (base demo_rotating))" "rotateCamera (base demo_rotating)"
  "getMouseX (mouseWatcherNode (base demo_rotating)) = 1/4"
  "getMouseY (mouseWatcherNode (base demo_rotating)) = 1/2"
  "speed (base demo_rotating) = 20" "move_z (base demo_rotating) = 0"
  "camHeading (base demo_rotating) = 0" "camPitch (base demo_rotating) = 0"
  "camera (base demo_rotating) = []" "\<not> speedBoost demo_rotating"
  "mouseX_last demo_rotating = Some 0" "mouseY_last demo_rotating = Some 0"
  by (simp_all add: demo_rotating_def base_demo fields_demo)

theorem UpdateCameraMovement_frame_witness:
  "min (1::real) 0.05 = 0.05
   \<and> UpdateCameraMovement 1 demo_rotating =
       (None,
        demo_rotating\<lparr>base := (base demo_rotating)\<lparr>move_z := 0, camHeading := - 58, camPitch := 125,
             camera := [setPos_relative 0 1 0, setZ 0, setHpr (- 58) 125 0]\<rparr>,
           mouseX_last := Some (1/4), mouseY_last := Some (1/2)\<rparr>)"
proof -
  note b = demo_rotating_fields
  have r: "True = (hasMouse (mouseWatcherNode (base demo_rotating)) \<and> rotateCamera (base demo_rotating))"
    by (simp add: b)
  have l: "True \<longrightarrow> mouseX_last demo_rotating = Some 0 \<and> mouseY_last demo_rotating = Some 0"
    by (simp add: b)
  have dx: "(1/4::real) = (if True then getMouseX (mouseWatcherNode (base demo_rotating)) - 0 else 0)"
    by (simp add: b)
  have dy: "(1/2::real) = (if True then getMouseY (mouseWatcherNode (base demo_rotating)) - 0 else 0)"
    by (simp add: b)
  have dt: "(0.05::real) = min 1 0.05" by simp
  have sp: "(20::real) = (if speedBoost demo_rotating then 4 * speed (base demo_rotating) else speed (base demo_rotating))"
    by (simp add: b)
  have z: "(0::real) = move_z (base demo_rotating) + 0.05 * 20 * (real_of_int 0 - real_of_int 0)"
    by (simp add: b)
  have h: "(- 58::real) = camHeading (base demo_rotating) + 0.05 * 90 * (real_of_int 1 - real_of_int 0)
                   - 0.05 * 5000 * (1/4)"
    by (simp add: b)
  have p: "(125::real) = camPitch (base demo_rotating) + 0.05 * 90 * (real_of_int 0 - real_of_int 0)
                   + 0.05 * 5000 * (1/2)"
    by (simp add: b)
  have e: "(0.05::real) * 20 * (real_of_int 0 - real_of_int 0) = 0"
          "(0.05::real) * 20 * (real_of_int 1 - real_of_int 0) = 1"
    by simp_all
  from UpdateCameraMovement_frame [OF demo_rotating_keys r l dx dy dt sp z h p]
  have "UpdateCameraMovement 1 demo_rotating =
       (None,
        demo_rotating\<lparr>base := (base demo_rotating)\<lparr>move_z := 0, camHeading := - 58, camPitch := 125,
             camera := camera (base demo_rotating) @ [setPos_relative 0 1 0, setZ 0, setHpr (- 58) 125 0]\<rparr>,
           mouseX_last := Some (getMouseX (mouseWatcherNode (base demo_rotating))),
           mouseY_last := Some (getMouseY (mouseWatcherNode (base demo_rotating)))\<rparr>)"
    unfolding e by simp
  then show ?thesis
    by (simp only: b append_Nil) simp
qed

section \<open>Theorems: interaction, picking\<close>

lemma findNetTag_nonempty:
  "findNetTag key p \<noteq> [] \<longleftrightarrow> (\<exists>n\<in>set p. tags n key \<noteq> None)"
  by (auto simp: findNetTag_def dropWhile_eq_Nil_conv)

lemma findNetTag_last:
  assumes "findNetTag key p \<noteq> []"
  shows "tags (last (findNetTag key p)) key \<noteq> None"
proof -
  let ?d = "dropWhile (\<lambda>n. tags n key = None) (rev p)"
  from assms have ne: "?d \<noteq> []" by (simp add: findNetTag_def)
  then have "\<not> (tags (hd ?d) key = None)" by (rule hd_dropWhile)
  moreover have "last (findNetTag key p) = hd ?d"
    using ne by (simp add: findNetTag_def last_rev)
  ultimately show ?thesis by simp
qed

lemma findNetTag_prefix: "\<exists>below. p = findNetTag key p @ below"
proof -
  let ?P = "\<lambda>n. tags n key = None"
  have "rev (takeWhile ?P (rev p) @ dropWhile ?P (rev p)) = rev (rev p)"
    by (simp only: takeWhile_dropWhile_id)
  then have "rev (dropWhile ?P (rev p)) @ rev (takeWhile ?P (rev p)) = p"
    by (simp only: rev_append rev_rev_ident)
  then have "p = findNetTag key p @ rev (takeWhile ?P (rev p))"
    by (simp only: findNetTag_def)
  then show ?thesis ..
qed

lemma sortEntries_closest:
  assumes "es \<noteq> []"
  shows "hd (sortEntries es) \<in> set es \<and> (\<forall>e\<in>set es. entry_dist (hd (sortEntries es)) \<le> entry_dist e)"
proof -
  let ?ss = "sortEntries es"
  have set: "set ?ss = set es" by (simp add: sortEntries_def)
  have srt: "sorted (map entry_dist ?ss)" by (simp add: sortEntries_def)
  from assms set have ne: "?ss \<noteq> []" by auto
  then obtain x xs where xs: "?ss = x # xs" by (cases ?ss) auto
  have "x \<in> set es" using set xs by auto
  moreover have "\<forall>e\<in>set es. entry_dist x \<le> entry_dist e"
  proof
    fix e assume "e \<in> set es"
    then have "e \<in> set (x # xs)" using set xs by simp
    then show "entry_dist x \<le> entry_dist e" using srt xs by auto
  qed
  ultimately show ?thesis using xs by simp
qed

lemma focus_cell_handled: "handled (snd (focus_cell thisId parentId obj s)) = handled s"
  by (simp add: focus_cell_def Let_def split: option.splits)

lemma HandlePickedObject_handled:
  "handled (snd (HandlePickedObject toInt obj s)) = handled s @ [obj]"
  by (simp add: HandlePickedObject_def Let_def focus_cell_handled split: option.splits)


text \<open>
  C4.  A left mouse press runs \<^verbatim>\<open>onClickObject\<close>: the picker ray is set to the mouse
  position and the scene is traversed.  \<^verbatim>\<open>HandlePickedObject\<close> is called, once, with
  the nearest node at or above the closest entry's node that carries the tag
  \<^verbatim>\<open>clickable\<close>, exactly when the mouse watcher has the mouse, the collision queue is
  not empty and such a node exists; the closest entry is an entry of the queue of least
  distance.  In every other case, and for every other mouse event, nothing is handled.
\<close>

theorem onClickObject_picks:
  assumes mw: "mw = mouseWatcherNode (base s)"
      and es: "es = collide (getMouseX mw, getMouseY mw)"
      and cl: "closest = hd (sortEntries es)"
      and ob: "obj = findNetTag ''clickable'' (getIntoNodePath closest)"
      and r: "r = onMouseEvent toInt collide ''left'' True s"
      and pk: "picks = (hasMouse mw \<and> es \<noteq> [] \<and> obj \<noteq> [])"
  shows "handled (snd r) = handled s @ (if picks then [obj] else [])
       \<and> (picks \<longrightarrow> r = HandlePickedObject toInt obj
                 (s\<lparr>pickerRay := Some (getMouseX mw, getMouseY mw), myHandler := sortEntries es\<rparr>))
       \<and> (es \<noteq> [] \<longrightarrow> closest \<in> set es \<and> (\<forall>e\<in>set es. entry_dist closest \<le> entry_dist e))
       \<and> (obj \<noteq> [] \<longleftrightarrow> (\<exists>n\<in>set (getIntoNodePath closest). tags n ''clickable'' \<noteq> None))
       \<and> (obj \<noteq> [] \<longrightarrow> tags (last obj) ''clickable'' \<noteq> None
                          \<and> (\<exists>below. getIntoNodePath closest = obj @ below))
       \<and> (\<not> (event = ''left'' \<and> press) \<longrightarrow>
             handled (snd (onMouseEvent toInt collide event press s)) = handled s)"
proof -
  have click: "r = onClickObject toInt collide s"
    using r by (simp add: onMouseEvent_def)
  have hd0: "sortEntries es ! 0 = closest" if "es \<noteq> []"
  proof -
    have "set (sortEntries es) = set es" by (simp add: sortEntries_def)
    with that have "sortEntries es \<noteq> []" by auto
    then show ?thesis using cl by (simp add: hd_conv_nth)
  qed
  have c1: "picks \<longrightarrow> r = HandlePickedObject toInt obj
                 (s\<lparr>pickerRay := Some (getMouseX mw, getMouseY mw), myHandler := sortEntries es\<rparr>)"
    using hd0 by (simp add: click pk onClickObject_def Let_def isEmpty_def mw [symmetric] es [symmetric] ob)
  have c0: "handled (snd r) = handled s @ (if picks then [obj] else [])"
  proof (cases picks)
    case True
    with c1 show ?thesis by (simp add: HandlePickedObject_handled)
  next
    case False
    then show ?thesis
      using hd0 by (auto simp: click pk onClickObject_def Let_def isEmpty_def mw [symmetric] es [symmetric] ob)
  qed
  have c2: "es \<noteq> [] \<longrightarrow> closest \<in> set es \<and> (\<forall>e\<in>set es. entry_dist closest \<le> entry_dist e)"
    using sortEntries_closest [of es] cl by simp
  have c3: "obj \<noteq> [] \<longleftrightarrow> (\<exists>n\<in>set (getIntoNodePath closest). tags n ''clickable'' \<noteq> None)"
    unfolding ob by (rule findNetTag_nonempty)
  have c4: "obj \<noteq> [] \<longrightarrow> tags (last obj) ''clickable'' \<noteq> None
                          \<and> (\<exists>below. getIntoNodePath closest = obj @ below)"
    unfolding ob using findNetTag_last [of "''clickable''" "getIntoNodePath closest"]
      findNetTag_prefix [of "getIntoNodePath closest" "''clickable''"] by blast
  have c5: "\<not> (event = ''left'' \<and> press) \<longrightarrow>
             handled (snd (onMouseEvent toInt collide event press s)) = handled s"
    by (simp add: onMouseEvent_def Let_def)
  from c0 c1 c2 c3 c4 c5 show ?thesis by blast
qed

lemma demo_closest:
  "hd (sortEntries (demo_collide (1/4, 1/2))) =
     \<lparr>entry_dist = 3, getIntoNodePath = demo_cell_path @ [\<lparr>name = ''geom'', tags = Map.empty\<rparr>]\<rparr>"
  by (simp add: demo_collide_def sortEntries_def)

lemma demo_clickable:
  "findNetTag ''clickable'' (demo_cell_path @ [\<lparr>name = ''geom'', tags = Map.empty\<rparr>]) = demo_cell_path"
  by (simp add: findNetTag_def demo_cell_path_def)

text \<open>
  In the small scene the ray through the mouse hits the floor at distance 7 and a
  cell's geometry at distance 3: the cell above the geometry is handled.
\<close>

theorem onClickObject_picks_witness:
  "hasMouse (mouseWatcherNode (base demo))
   \<and> demo_collide (getMouseX (mouseWatcherNode (base demo)), getMouseY (mouseWatcherNode (base demo))) \<noteq> []
   \<and> handled (snd (onMouseEvent demo_toInt demo_collide ''left'' True demo)) = [demo_cell_path]"
proof -
  have m: "hasMouse (mouseWatcherNode (base demo))"
    by (simp add: base_demo)
  have mx: "getMouseX (mouseWatcherNode (base demo)) = 1/4"
    and my: "getMouseY (mouseWatcherNode (base demo)) = 1/2"
    by (simp_all add: base_demo)
  have ne: "demo_collide (1/4, 1/2) \<noteq> []" by (simp add: demo_collide_def)
  have p: "demo_cell_path \<noteq> []" by (simp add: demo_cell_path_def)
  from onClickObject_picks [where s = demo and collide = demo_collide and toInt = demo_toInt,
      OF refl refl refl refl refl refl, THEN conjunct1]
  have "handled (snd (onMouseEvent demo_toInt demo_collide ''left'' True demo)) = [demo_cell_path]"
    unfolding mx my demo_closest by (simp add: m ne p demo_clickable fields_demo)
  then show ?thesis by (simp add: m mx my ne)
qed

section \<open>Theorems: interaction, focus\<close>

lemma focus_cell_inv:
  "focus_inv s \<Longrightarrow> focus_inv (snd (focus_cell thisId parentId obj s))"
  by (auto simp: focus_cell_def focus_inv_def setFocus_def resetFocus_def Let_def
           split: option.splits)

lemma HandlePickedObject_inv:
  "focus_inv s \<Longrightarrow> focus_inv (snd (HandlePickedObject toInt obj s))"
proof -
  assume i: "focus_inv s"
  then have j: "focus_inv (s\<lparr>handled := handled s @ [obj]\<rparr>)"
    by (simp add: focus_inv_def)
  show ?thesis
    using j focus_cell_inv [OF j]
    by (simp add: HandlePickedObject_def Let_def split: option.splits)
qed

lemma focus_inv_at_most_one:
  "focus_inv s \<Longrightarrow> \<forall>a\<in>focused (heap s). \<forall>b\<in>focused (heap s). a = b"
  by (auto simp: focus_inv_def split: option.splits)

lemma focus_cell_fields:
  assumes "py_index (split_str (CHR ''/'') (str_NodePath obj)) 1 = Some ho"
      and "py_index (split_str (CHR ''/'') (str_NodePath obj)) 2 = Some lo"
      and "vHTMObjects (base s) ho = Some HTMObj"
      and "vlayers HTMObj lo = Some layer"
      and "py_index (corticalColumns layer) parentId = Some col"
      and "py_index (column_cells (heap s) col) thisId = Some newCell"
      and "r = focus_cell thisId parentId obj s"
  shows "focusedCell (snd r) = Some newCell \<and> focusedPath (snd r) = Some [ho, lo]
       \<and> gui_focusedCell (gui (snd r)) = Some newCell
       \<and> gui_focusedPath (gui (snd r)) = Some [ho, lo]
       \<and> focus_calls (heap (snd r)) =
            focus_calls (heap s) @ (case focusedCell s of None \<Rightarrow> [] | Some c \<Rightarrow> [ResetFocus c])
              @ [SetFocus newCell]
       \<and> focused (heap (snd r)) =
            insert newCell (focused (heap s) - (case focusedCell s of None \<Rightarrow> {} | Some c \<Rightarrow> {c}))
       \<and> (fst r = None \<longrightarrow>
            list_index (corticalColumns layer) (cell_column (heap s) newCell)
              = Some (columnID (gui (snd r)))
          \<and> list_index (column_cells (heap s) (corticalColumns layer ! columnID (gui (snd r)))) newCell
              = Some (cellID (gui (snd r))))"
  using assms
  by (simp add: focus_cell_def setFocus_def resetFocus_def Let_def split: option.splits)

text \<open>
  C5.  \<^verbatim>\<open>HandlePickedObject\<close> keeps the focus invariant on every path, so at most one
  cell is marked as focused.  When the picked node is named \<^verbatim>\<open>cell\<close>, its
  \<^verbatim>\<open>clickable\<close> tag and its parent's non-empty \<^verbatim>\<open>id\<close> tag are numbers, and the
  object, layer, column and cell they name exist, then \<^verbatim>\<open>resetFocus\<close> is called on the
  previously focused cell (if any) and after it \<^verbatim>\<open>setFocus\<close> on the new cell, and
  \<open>focusedCell\<close>, \<open>focusedPath\<close> and the gui's \<open>focusedCell\<close>, \<open>focusedPath\<close>,
  \<open>columnID\<close> and \<open>cellID\<close> name the new cell.  When the parent's \<^verbatim>\<open>id\<close> tag is
  empty the method returns and nothing but the call record has changed.
\<close>

theorem HandlePickedObject_focus:
  assumes r: "r = HandlePickedObject toInt obj s"
  shows "(focus_inv s \<longrightarrow>
            focus_inv (snd r) \<and> (\<forall>a\<in>focused (heap (snd r)). \<forall>b\<in>focused (heap (snd r)). a = b))
       \<and> (toInt (getTag obj ''clickable'') = Some thisId \<and> getTag (getParent obj) ''id'' = [] \<longrightarrow>
            r = (None, s\<lparr>handled := handled s @ [obj]\<rparr>))
       \<and> (toInt (getTag obj ''clickable'') = Some thisId
           \<and> getTag (getParent obj) ''id'' \<noteq> []
           \<and> toInt (getTag (getParent obj) ''id'') = Some parentId
           \<and> getName obj = ''cell''
           \<and> py_index (split_str (CHR ''/'') (str_NodePath obj)) 1 = Some ho
           \<and> py_index (split_str (CHR ''/'') (str_NodePath obj)) 2 = Some lo
           \<and> vHTMObjects (base s) ho = Some HTMObj
           \<and> vlayers HTMObj lo = Some layer
           \<and> py_index (corticalColumns layer) parentId = Some col
           \<and> py_index (column_cells (heap s) col) thisId = Some newCell
          \<longrightarrow>
            focusedCell (snd r) = Some newCell \<and> focusedPath (snd r) = Some [ho, lo]
          \<and> gui_focusedCell (gui (snd r)) = Some newCell
          \<and> gui_focusedPath (gui (snd r)) = Some [ho, lo]
          \<and> focus_calls (heap (snd r)) =
               focus_calls (heap s) @ (case focusedCell s of None \<Rightarrow> [] | Some c \<Rightarrow> [ResetFocus c])
                 @ [SetFocus newCell]
          \<and> focused (heap (snd r)) =
               insert newCell (focused (heap s) - (case focusedCell s of None \<Rightarrow> {} | Some c \<Rightarrow> {c}))
          \<and> (fst r = None \<longrightarrow>
               list_index (corticalColumns layer) (cell_column (heap s) newCell)
                 = Some (columnID (gui (snd r)))
             \<and> list_index (column_cells (heap s) (corticalColumns layer ! columnID (gui (snd r)))) newCell
                 = Some (cellID (gui (snd r)))))"
proof -
  have c1: "focus_inv s \<longrightarrow>
            focus_inv (snd r) \<and> (\<forall>a\<in>focused (heap (snd r)). \<forall>b\<in>focused (heap (snd r)). a = b)"
  proof
    assume "focus_inv s"
    then have "focus_inv (snd r)" unfolding r by (rule HandlePickedObject_inv)
    then show "focus_inv (snd r) \<and> (\<forall>a\<in>focused (heap (snd r)). \<forall>b\<in>focused (heap (snd r)). a = b)"
      using focus_inv_at_most_one by blast
  qed
  have c2: "toInt (getTag obj ''clickable'') = Some thisId \<and> getTag (getParent obj) ''id'' = [] \<longrightarrow>
            r = (None, s\<lparr>handled := handled s @ [obj]\<rparr>)"
    unfolding r by (simp add: HandlePickedObject_def Let_def)
  have c3: "focusedCell (snd r) = Some newCell \<and> focusedPath (snd r) = Some [ho, lo]
          \<and> gui_focusedCell (gui (snd r)) = Some newCell
          \<and> gui_focusedPath (gui (snd r)) = Some [ho, lo]
          \<and> focus_calls (heap (snd r)) =
               focus_calls (heap s) @ (case focusedCell s of None \<Rightarrow> [] | Some c \<Rightarrow> [ResetFocus c])
                 @ [SetFocus newCell]
          \<and> focused (heap (snd r)) =
               insert newCell (focused (heap s) - (case focusedCell s of None \<Rightarrow> {} | Some c \<Rightarrow> {c}))
          \<and> (fst r = None \<longrightarrow>
               list_index (corticalColumns layer) (cell_column (heap s) newCell)
                 = Some (columnID (gui (snd r)))
             \<and> list_index (column_cells (heap s) (corticalColumns layer ! columnID (gui (snd r)))) newCell
                 = Some (cellID (gui (snd r))))"
    if a: "toInt (getTag obj ''clickable'') = Some thisId
           \<and> getTag (getParent obj) ''id'' \<noteq> []
           \<and> toInt (getTag (getParent obj) ''id'') = Some parentId
           \<and> getName obj = ''cell''
           \<and> py_index (split_str (CHR ''/'') (str_NodePath obj)) 1 = Some ho
           \<and> py_index (split_str (CHR ''/'') (str_NodePath obj)) 2 = Some lo
           \<and> vHTMObjects (base s) ho = Some HTMObj
           \<and> vlayers HTMObj lo = Some layer
           \<and> py_index (corticalColumns layer) parentId = Some col
           \<and> py_index (column_cells (heap s) col) thisId = Some newCell"
  proof -
    let ?s = "s\<lparr>handled := handled s @ [obj]\<rparr>"
    have e: "r = focus_cell thisId parentId obj ?s"
      unfolding r using a by (simp add: HandlePickedObject_def Let_def)
    have f: "vHTMObjects (base ?s) ho = Some HTMObj"
            "py_index (column_cells (heap ?s) col) thisId = Some newCell"
      using a by simp_all
    from a have p1: "py_index (split_str (CHR ''/'') (str_NodePath obj)) 1 = Some ho"
      and p2: "py_index (split_str (CHR ''/'') (str_NodePath obj)) 2 = Some lo"
      and p3: "vlayers HTMObj lo = Some layer"
      and p4: "py_index (corticalColumns layer) parentId = Some col"
      by simp_all
    from focus_cell_fields [OF p1 p2 f(1) p3 p4 f(2) e]
    show ?thesis by simp
  qed
  from c1 c2 c3 show ?thesis by blast
qed

lemma demo_cell_tags:
  "demo_toInt (getTag demo_cell_path ''clickable'') = Some 0"
  "getTag (getParent demo_cell_path) ''id'' \<noteq> []"
  "demo_toInt (getTag (getParent demo_cell_path) ''id'') = Some 1"
  "getName demo_cell_path = ''cell''"
  by (simp_all add: getTag_def getParent_def getName_def demo_cell_path_def demo_toInt_def)

lemma demo_cell_str:
  "split_str (CHR ''/'') (str_NodePath demo_cell_path) = [''render'', ''HTM1'', ''L1'', ''column'', ''cell'']"
  by (simp add: str_NodePath_def demo_cell_path_def)

lemma demo_focused_fields:
  "focusedCell demo_focused = Some 100" "focused (heap demo_focused) = {100}"
  "focus_calls (heap demo_focused) = []" "column_cells (heap demo_focused) 11 = [110, 111]"
  "vHTMObjects (base demo_focused) ''HTM1'' = Some \<lparr>vlayers = Map.empty(''L1'' \<mapsto> \<lparr>corticalColumns = [10, 11]\<rparr>)\<rparr>"
  by (simp_all add: demo_focused_def fields_demo base_demo demo_store_def)

text \<open>
  In the small scene cell 100 has the focus; picking cell 0 of column 1 (object 110)
  resets 100, then focuses 110.
\<close>

theorem HandlePickedObject_focus_witness:
  "focus_inv demo_focused
   \<and> focus_inv (snd (HandlePickedObject demo_toInt demo_cell_path demo_focused))
   \<and> focusedCell (snd (HandlePickedObject demo_toInt demo_cell_path demo_focused)) = Some 110
   \<and> focusedPath (snd (HandlePickedObject demo_toInt demo_cell_path demo_focused)) = Some [''HTM1'', ''L1'']
   \<and> gui_focusedCell (gui (snd (HandlePickedObject demo_toInt demo_cell_path demo_focused))) = Some 110
   \<and> focus_calls (heap (snd (HandlePickedObject demo_toInt demo_cell_path demo_focused)))
        = [ResetFocus 100, SetFocus 110]
   \<and> focused (heap (snd (HandlePickedObject demo_toInt demo_cell_path demo_focused))) = {110}"
proof -
  have i: "focus_inv demo_focused"
    by (simp add: focus_inv_def demo_focused_fields)
  have h: "demo_toInt (getTag demo_cell_path ''clickable'') = Some 0
           \<and> getTag (getParent demo_cell_path) ''id'' \<noteq> []
           \<and> demo_toInt (getTag (getParent demo_cell_path) ''id'') = Some 1
           \<and> getName demo_cell_path = ''cell''
           \<and> py_index (split_str (CHR ''/'') (str_NodePath demo_cell_path)) 1 = Some ''HTM1''
           \<and> py_index (split_str (CHR ''/'') (str_NodePath demo_cell_path)) 2 = Some ''L1''
           \<and> vHTMObjects (base demo_focused) ''HTM1''
                = Some \<lparr>vlayers = Map.empty(''L1'' \<mapsto> \<lparr>corticalColumns = [10, 11]\<rparr>)\<rparr>
           \<and> vlayers \<lparr>vlayers = Map.empty(''L1'' \<mapsto> \<lparr>corticalColumns = [10, 11]\<rparr>)\<rparr> ''L1''
                = Some \<lparr>corticalColumns = [10, 11]\<rparr>
           \<and> py_index (corticalColumns \<lparr>corticalColumns = [10, 11]\<rparr>) 1 = Some 11
           \<and> py_index (column_cells (heap demo_focused) 11) 0 = Some 110"
    by (simp add: demo_cell_tags demo_cell_str demo_focused_fields py_index_def)
  note t = HandlePickedObject_focus [where s = demo_focused and toInt = demo_toInt
      and obj = demo_cell_path, OF refl]
  from t [THEN conjunct1] i
  have c1: "focus_inv (snd (HandlePickedObject demo_toInt demo_cell_path demo_focused))"
    by blast
  from t [THEN conjunct2, THEN conjunct2, rule_format, OF h]
  have c3: "focusedCell (snd (HandlePickedObject demo_toInt demo_cell_path demo_focused)) = Some 110
   \<and> focusedPath (snd (HandlePickedObject demo_toInt demo_cell_path demo_focused)) = Some [''HTM1'', ''L1'']
   \<and> gui_focusedCell (gui (snd (HandlePickedObject demo_toInt demo_cell_path demo_focused))) = Some 110
   \<and> focus_calls (heap (snd (HandlePickedObject demo_toInt demo_cell_path demo_focused)))
        = [ResetFocus 100, SetFocus 110]
   \<and> focused (heap (snd (HandlePickedObject demo_toInt demo_cell_path demo_focused))) = {110}"
    by (simp add: demo_focused_fields)
  from i c1 c3 show ?thesis by simp
qed

section \<open>Theorems: the steps of \<^verbatim>\<open>main\<close>\<close>

lemma run_Nil: "run L records [] s = s"
  by (simp add: run_def)

lemma run_Cons: "run L records (e # evs) s = run L records evs (step L records e s)"
  by (simp add: run_def)

lemma run_append: "run L records (xs @ ys) s = run L records ys (run L records xs s)"
  by (simp add: run_def)

lemma publish_Inr:
  assumes "publish L r s = (Inr lc, s1)"
  shows "\<exists>c. consumption_of L r = Some c \<and> consumption lc = c
           \<and> m_inputs s1 = m_inputs s @ [c]
           \<and> newStateData (pandaServer s1) = newStateData (pandaServer s) @ [serverData s1]
           \<and> runInLoop (pandaServer s1) = runInLoop (pandaServer s)
           \<and> runOneStep (pandaServer s1) = runOneStep (pandaServer s)
           \<and> predictions s1 = predictions s \<and> m_count s1 = m_count s \<and> pc s1 = pc s"
  using assms
  by (auto simp: publish_def consumption_of_def Let_def NewStateDataReady_def
           split: option.splits prod.splits)

lemma publish_Inl:
  assumes "publish L r s = (Inl e, s1)"
  shows "pandaServer s1 = pandaServer s \<and> m_count s1 = m_count s"
  using assms
  by (auto simp: publish_def Let_def split: option.splits prod.splits)

lemma learn_fields:
  assumes "learn L lc s = (x, s1)"
  shows "pandaServer s1 = pandaServer s \<and> m_count s1 = m_count s \<and> m_inputs s1 = m_inputs s
         \<and> serverData s1 = serverData s \<and> pc s1 = pc s
         \<and> predictions s1 = fold (\<lambda>n. append_prediction n
               (predict L (predictor_infer L (tm_activateCells L (lib s) (loc_activeColumns lc))
                  (tm_getActiveCells L (tm_activateCells L (lib s) (loc_activeColumns lc)))) n))
               [1, 5] (predictions s)"
  using assms
  by (auto simp: learn_def Let_def split: option.splits prod.splits)

lemma learn_ok:
  assumes "int_of_float L (consumption lc) \<noteq> None"
  shows "fst (learn L lc s) = None"
  using assms
  by (auto simp: learn_def Let_def split: option.splits prod.splits)

lemma append_prediction_fst: "map fst (append_prediction n v preds) = map fst preds"
  by (induction preds) (auto simp: append_prediction_def)

lemma append_prediction_lengths:
  assumes "map fst preds = [1, 5]" and "\<forall>x\<in>set preds. length (snd x) = k"
  shows "\<forall>x\<in>set (fold (\<lambda>n. append_prediction n (f n)) [1, 5] preds). length (snd x) = Suc k"
proof -
  from assms(1) obtain a b where p: "preds = [(1, a), (5, b)]"
    by (cases preds; cases "tl preds") auto
  with assms(2) show ?thesis by (simp add: append_prediction_def)
qed

lemma shift_once_length: "length (shift_once pl) = length pl"
  by (simp add: shift_once_def)

lemma shift_list_length: "length (shift_list n pl) = length pl"
  by (induction n arbitrary: pl) (simp_all add: shift_once_length)

lemma shift_predictions_fst: "map fst (shift_predictions preds) = map fst preds"
  by (induction preds) (auto simp: shift_predictions_def)

lemma shift_predictions_lengths:
  "\<forall>x\<in>set preds. length (snd x) = k \<Longrightarrow> \<forall>x\<in>set (shift_predictions preds). length (snd x) = k"
  by (auto simp: shift_predictions_def shift_list_length)

lemma fold_append_prediction_fst:
  "map fst (fold (\<lambda>n. append_prediction n (f n)) [1, 5] preds) = map fst preds"
  by (simp add: append_prediction_fst)

lemma main_step_inv:
  assumes i: "main_inv L records n0 s"
  shows "main_inv L records n0 (main_step L records s)"
proof (cases "pc s")
  case LoopHead
  show ?thesis
  proof (cases "m_count s < length records")
    case True
    obtain x s1 where p: "publish L (records ! m_count s) s = (x, s1)"
      by (cases "publish L (records ! m_count s) s") auto
    show ?thesis
    proof (cases x)
      case (Inl e)
      from publish_Inl [OF p [unfolded Inl]]
      have "pandaServer s1 = pandaServer s" "m_count s1 = m_count s" by simp_all
      with i LoopHead have "main_inv L records n0 (s1\<lparr>pc := Raised e\<rparr>)"
        by (simp add: main_inv_def signals_def mid_def)
      then show ?thesis by (simp add: main_step_def LoopHead True p Inl)
    next
      case (Inr lc)
      from publish_Inr [OF p [unfolded Inr]] obtain c where
        c: "consumption_of L (records ! m_count s) = Some c"
        and f: "m_inputs s1 = m_inputs s @ [c]"
          "newStateData (pandaServer s1) = newStateData (pandaServer s) @ [serverData s1]"
          "predictions s1 = predictions s" "m_count s1 = m_count s"
        by blast
      have tk: "take (Suc (m_count s)) records = take (m_count s) records @ [records ! m_count s]"
        using True by (simp add: take_Suc_conv_app_nth)
      from i LoopHead True have "main_inv L records n0 (s1\<lparr>pc := Waiting lc\<rparr>)"
        by (simp add: main_inv_def signals_def mid_def f c tk)
      then show ?thesis by (simp add: main_step_def LoopHead True p Inr)
    qed
  next
    case False
    with i LoopHead have e: "m_count s = length records"
      by (simp add: main_inv_def mid_def)
    from i LoopHead have "\<forall>x\<in>set (predictions s). length (snd x) = m_count s"
      by (simp add: main_inv_def)
    then have sl: "\<forall>x\<in>set (shift_predictions (predictions s)). length (snd x) = m_count s"
      by (rule shift_predictions_lengths)
    from i LoopHead e sl
    have "main_inv L records n0 (s\<lparr>predictions := shift_predictions (predictions s), pc := Finished\<rparr>)"
      by (simp add: main_inv_def signals_def mid_def shift_predictions_fst)
    then show ?thesis by (simp add: main_step_def LoopHead False)
  qed
next
  case (Waiting lc)
  with i have "main_inv L records n0 (s\<lparr>pc := Resetting lc\<rparr>)"
    by (simp add: main_inv_def signals_def mid_def)
  with i show ?thesis by (simp add: main_step_def Waiting)
next
  case (Resetting lc)
  with i show ?thesis
    by (simp add: main_step_def main_inv_def signals_def mid_def)
next
  case (Learning lc)
  obtain x s1 where l: "learn L lc s = (x, s1)"
    by (cases "learn L lc s") auto
  note f = learn_fields [OF l]
  from f have ps: "pandaServer s1 = pandaServer s" and mc: "m_count s1 = m_count s"
    and mi: "m_inputs s1 = m_inputs s" by simp_all
  show ?thesis
  proof (cases x)
    case None
    from i Learning have k: "map fst (predictions s) = [1, 5]"
      "\<forall>x\<in>set (predictions s). length (snd x) = m_count s"
      by (simp_all add: main_inv_def)
    from f have pr: "map fst (predictions s1) = [1, 5]"
      by (simp only: fold_append_prediction_fst k)
    from f append_prediction_lengths [OF k]
    have pl: "\<forall>x\<in>set (predictions s1). length (snd x) = Suc (m_count s)"
      by simp
    from i Learning
    have "main_inv L records n0 (s1\<lparr>m_count := m_count s1 + 1, pc := LoopHead\<rparr>)"
      by (simp add: main_inv_def signals_def mid_def ps mc mi pr pl)
    then show ?thesis by (simp add: main_step_def Learning l None)
  next
    case (Some e)
    from i Learning have "main_inv L records n0 (s1\<lparr>pc := Raised e\<rparr>)"
      by (simp add: main_inv_def signals_def mid_def ps mc)
    then show ?thesis by (simp add: main_step_def Learning l Some)
  qed
next
  case Finished
  with i show ?thesis by (simp add: main_step_def)
next
  case (Raised e)
  with i show ?thesis by (simp add: main_step_def)
qed

lemma step_inv:
  assumes "main_inv L records n0 s"
  shows "main_inv L records n0 (step L records e s)"
proof (cases e)
  case Main
  with assms show ?thesis by (simp add: step_def main_step_inv)
next
  case (SetRunInLoop b)
  with assms show ?thesis
    by (simp add: step_def main_inv_def signals_def mid_def split: loc.splits)
next
  case (SetRunOneStep b)
  with assms show ?thesis
    by (simp add: step_def main_inv_def signals_def mid_def split: loc.splits)
qed

lemma run_inv:
  "main_inv L records n0 s \<Longrightarrow> main_inv L records n0 (run L records evs s)"
  by (induction evs arbitrary: s) (simp_all add: run_Nil run_Cons step_inv)

lemma init_inv: "main_inv L records (length (newStateData ps)) (init_state h sd ps)"
  by (simp add: main_inv_def init_state_def signals_def mid_def)

section \<open>Theorems: the prediction shift\<close>

lemma take_append_take: "take k (xs @ take k ys) = take k (xs @ ys)"
  by (simp add: min_def)

lemma shift_once_eq: "shift_once pl = take (length pl) (NaN # pl)"
  by (simp add: shift_once_def butlast_conv_take)

lemma shift_list_eq: "shift_list n pl = take (length pl) (replicate n NaN @ pl)"
proof (induction n arbitrary: pl)
  case 0
  show ?case by simp
next
  case (Suc n)
  have "shift_list (Suc n) pl = shift_list n (shift_once pl)" by simp
  also have "\<dots> = take (length pl) (replicate n NaN @ shift_once pl)"
    by (simp add: Suc.IH shift_once_length)
  also have "\<dots> = take (length pl) (replicate n NaN @ take (length pl) (NaN # pl))"
    by (simp only: shift_once_eq)
  also have "\<dots> = take (length pl) (replicate n NaN @ (NaN # pl))"
    by (rule take_append_take)
  also have "\<dots> = take (length pl) (replicate (Suc n) NaN @ pl)"
    by (simp add: replicate_app_Cons_same)
  finally show ?case .
qed

lemma shift_list_nth:
  assumes "i < length pl"
  shows "shift_list n pl ! i = (if i < n then NaN else pl ! (i - n))"
  using assms by (simp add: shift_list_eq nth_append)

lemma shift_list_split:
  assumes "n \<le> length pl"
  shows "shift_list n pl = replicate n NaN @ take (length pl - n) pl"
  using assms by (simp add: shift_list_eq)

lemma shift_predictions_mem:
  "(n, pl) \<in> set preds \<Longrightarrow> (n, shift_list n pl) \<in> set (shift_predictions preds)"
  by (force simp: shift_predictions_def)

lemma learn_appends:
  assumes "learn L lc s = (x, s1)" and "map fst (predictions s) = [1, 5]"
      and "(n, pl) \<in> set (predictions s)"
  shows "\<exists>v. (n, pl @ [v]) \<in> set (predictions s1)"
proof -
  from assms(2) obtain a b where p: "predictions s = [(1, a), (5, b)]"
    by (cases "predictions s"; cases "tl (predictions s)") auto
  from learn_fields [OF assms(1)] p assms(3) show ?thesis
    by (auto simp: append_prediction_def)
qed

section \<open>Theorems: filling and signalling\<close>

lemma fill_serverData_ok:
  assumes "HTMObjects sd ''HTM1'' = Some ob"
      and "inputs ob ''SL_Consumption'' = Some ic"
      and "inputs ob ''SL_TimeOfDay'' = Some it"
      and "layers ob ''SensoryLayer'' = Some ly"
  shows "fill_serverData cs df cb db ac wc pcs sd =
           (None,
            sd\<lparr>HTMObjects := (HTMObjects sd)(''HTM1'' \<mapsto>
               ob\<lparr>inputs := (inputs ob)
                      (''SL_Consumption'' \<mapsto> ic\<lparr>stringValue := cs, bits := sparse cb, count := sdr_size cb\<rparr>,
                       ''SL_TimeOfDay'' \<mapsto> it\<lparr>stringValue := df, bits := sparse db, count := sdr_size db\<rparr>),
                  layers := (layers ob)
                      (''SensoryLayer'' \<mapsto> ly\<lparr>activeColumns := sparse ac, winnerCells := sparse wc,
                                                 predictiveCells := sparse pcs\<rparr>)\<rparr>)\<rparr>)"
  using assms
  by (simp add: fill_serverData_def set_input_def set_layer_def and_then_def)

lemma has_keys_obtain:
  assumes "has_keys sd"
  obtains ob ic it ly where "HTMObjects sd ''HTM1'' = Some ob"
      and "inputs ob ''SL_Consumption'' = Some ic"
      and "inputs ob ''SL_TimeOfDay'' = Some it"
      and "layers ob ''SensoryLayer'' = Some ly"
  using assms by (auto simp: has_keys_def split: option.splits)

lemma fill_serverData_keys:
  assumes "has_keys sd"
  shows "\<exists>sd1. fill_serverData cs df cb db ac wc pcs sd = (None, sd1) \<and> has_keys sd1"
proof -
  from assms obtain ob ic it ly where k: "HTMObjects sd ''HTM1'' = Some ob"
      "inputs ob ''SL_Consumption'' = Some ic"
      "inputs ob ''SL_TimeOfDay'' = Some it"
      "layers ob ''SensoryLayer'' = Some ly"
    by (rule has_keys_obtain)
  show ?thesis
    unfolding fill_serverData_ok [OF k] by (simp add: has_keys_def)
qed

lemma well_formed_obtain:
  assumes "well_formed L r"
  obtains f0 d f1 c b where "py_index r 0 = Some f0" and "strptime L f0 = Some d"
      and "py_index r 1 = Some f1" and "to_float L f1 = Some c" and "int_of_float L c = Some b"
  using assms by (auto simp: well_formed_def consumption_of_def split: option.splits)

lemma publish_ok:
  assumes w: "well_formed L r" and k: "has_keys (serverData s)"
  shows "\<exists>lc s1. publish L r s = (Inr lc, s1) \<and> has_keys (serverData s1)
            \<and> int_of_float L (consumption lc) \<noteq> None"
proof -
  from w obtain f0 d f1 c b where p: "py_index r 0 = Some f0" "strptime L f0 = Some d"
      "py_index r 1 = Some f1" "to_float L f1 = Some c" "int_of_float L c = Some b"
    by (rule well_formed_obtain)
  obtain h1 ac where sp: "sp_compute L (lib s) (concatenate L (scalar_encode L c) (date_encode L d)) = (h1, ac)"
    by (cases "sp_compute L (lib s) (concatenate L (scalar_encode L c) (date_encode L d))") auto
  from fill_serverData_keys [OF k] obtain sd1 where
    f: "fill_serverData (''consumption: '' @ format_2f L c) f0 (scalar_encode L c) (date_encode L d) ac
          (tm_getWinnerCells L (tm_activateDendrites L h1))
          (tm_getPredictiveCells L (tm_activateDendrites L h1)) (serverData s) = (None, sd1)"
    and k1: "has_keys sd1"
    by blast
  show ?thesis
    by (simp add: publish_def p sp f k1 Let_def del: append.simps)
qed

section \<open>Theorems: a run to the end\<close>

lemma append_all_eq: "append_all acc rows = acc @ rows"
  by (induction rows arbitrary: acc) simp_all

lemma read_records_eq:
  "read_records rows = (if length rows < 3 then Inl StopIteration else Inr (drop 3 rows))"
proof (cases rows)
  case Nil
  then show ?thesis by (simp add: read_records_def next_row_def)
next
  case (Cons a as)
  note A = Cons
  show ?thesis
  proof (cases as)
    case Nil
    with A show ?thesis by (simp add: read_records_def next_row_def)
  next
    case (Cons b bs)
    note B = Cons
    show ?thesis
    proof (cases bs)
      case Nil
      with A B show ?thesis by (simp add: read_records_def next_row_def)
    next
      case (Cons c cs)
      with A B show ?thesis by (simp add: read_records_def next_row_def append_all_eq)
    qed
  qed
qed

lemma iteration:
  assumes lh: "pc s = LoopHead" and lt: "m_count s < length records"
      and w: "well_formed L (records ! m_count s)"
      and k: "has_keys (serverData s)" and f: "runInLoop (pandaServer s)"
  shows "pc (run L records [Main, Main, Main, Main] s) = LoopHead
       \<and> m_count (run L records [Main, Main, Main, Main] s) = m_count s + 1
       \<and> has_keys (serverData (run L records [Main, Main, Main, Main] s))
       \<and> runInLoop (pandaServer (run L records [Main, Main, Main, Main] s))"
proof -
  from publish_ok [OF w k] obtain lc sa where
    p: "publish L (records ! m_count s) s = (Inr lc, sa)" and ka: "has_keys (serverData sa)"
    and io: "int_of_float L (consumption lc) \<noteq> None"
    by blast
  from publish_Inr [OF p] have fa: "runInLoop (pandaServer sa) = runInLoop (pandaServer s)"
    and ma: "m_count sa = m_count s"
    by auto
  define a where "a = sa\<lparr>pc := Waiting lc\<rparr>"
  have s1: "main_step L records s = a"
    by (simp add: main_step_def lh lt p a_def)
  define b where "b = a\<lparr>pc := Resetting lc\<rparr>"
  have s2: "main_step L records a = b"
    using f fa by (simp add: main_step_def a_def b_def)
  define c where "c = b\<lparr>pandaServer := (pandaServer b)\<lparr>runOneStep := False\<rparr>, pc := Learning lc\<rparr>"
  have s3: "main_step L records b = c"
    by (simp add: main_step_def b_def c_def)
  obtain x sd where l: "learn L lc c = (x, sd)"
    by (cases "learn L lc c") auto
  from learn_ok [OF io, of c] l have x: "x = None" by simp
  note lf = learn_fields [OF l]
  define e where "e = sd\<lparr>m_count := m_count sd + 1, pc := LoopHead\<rparr>"
  have pcc: "pc c = Learning lc" by (simp add: c_def)
  have s4: "main_step L records c = e"
    by (simp add: main_step_def pcc l x e_def)
  have r: "run L records [Main, Main, Main, Main] s = e"
    by (simp add: run_Cons run_Nil step_def s1 s2 s3 s4)
  have "pc e = LoopHead" by (simp add: e_def)
  moreover have "m_count e = m_count s + 1"
    using lf ma by (simp add: e_def c_def b_def a_def)
  moreover have "has_keys (serverData e)"
    using lf ka by (simp add: e_def c_def b_def a_def)
  moreover have "runInLoop (pandaServer e)"
    using lf f fa by (simp add: e_def c_def b_def a_def)
  ultimately show ?thesis unfolding r by simp
qed

lemma completion_aux:
  assumes w: "\<forall>r\<in>set records. well_formed L r"
  shows "pc s = LoopHead \<Longrightarrow> m_count s + n = length records \<Longrightarrow> has_keys (serverData s)
         \<Longrightarrow> runInLoop (pandaServer s) \<Longrightarrow> pc (run L records (free_run n) s) = Finished"
proof (induction n arbitrary: s)
  case 0
  then show ?case
    by (simp add: free_run_def run_Cons run_Nil step_def main_step_def)
next
  case (Suc n)
  let ?t = "run L records [Main, Main, Main, Main] s"
  from Suc.prems have lt: "m_count s < length records" by simp
  then have wf: "well_formed L (records ! m_count s)" using w by simp
  from iteration [OF Suc.prems(1) lt wf Suc.prems(3) Suc.prems(4)]
  have t: "pc ?t = LoopHead" "m_count ?t = m_count s + 1" "has_keys (serverData ?t)"
    "runInLoop (pandaServer ?t)"
    by simp_all
  have "m_count ?t + n = length records" using t(2) Suc.prems(2) by simp
  from Suc.IH [OF t(1) this t(3) t(4)]
  have "pc (run L records (free_run n) ?t) = Finished" .
  moreover have "free_run (Suc n) = [Main, Main, Main, Main] @ free_run n"
    by (simp add: free_run_def)
  ultimately show ?case by (simp only: run_append)
qed

lemma completion:
  assumes "\<forall>r\<in>set records. well_formed L r" and "has_keys sd" and "runInLoop ps"
  shows "pc (run L records (free_run (length records)) (init_state h sd ps)) = Finished"
  using completion_aux [OF assms(1), of "init_state h sd ps" "length records"] assms(2,3)
  by (simp add: init_state_def)

lemma finished_facts:
  assumes "main_inv L records n0 s" and "pc s = Finished"
  shows "m_count s = length records \<and> signals s = n0 + length records
       \<and> map Some (m_inputs s) = map (consumption_of L) records
       \<and> length (m_inputs s) = length records
       \<and> map fst (predictions s) = [1, 5]
       \<and> (\<forall>x\<in>set (predictions s). length (snd x) = length records)"
proof -
  from assms have a: "m_count s = length records" "signals s = n0 + length records"
    "map Some (m_inputs s) = map (consumption_of L) records"
    "map fst (predictions s) = [1, 5]"
    "\<forall>x\<in>set (predictions s). length (snd x) = length records"
    by (simp_all add: main_inv_def mid_def)
  from a(3) have "length (map Some (m_inputs s)) = length (map (consumption_of L) records)"
    by simp
  then have "length (m_inputs s) = length records" by simp
  with a show ?thesis by simp
qed

lemmas demo_run_defs =
  run_def step_def main_step_def demo_looping_def demo_init_def init_state_def demo_records_def
  publish_def learn_def demo_htm_def py_index_def demo_toInt_def fill_serverData_def
  set_input_def set_layer_def and_then_def BuildPandaSystem_def demo_server_def
  NewStateDataReady_def predict_def append_prediction_def new_dataInput_def
  new_dataLayer_def shift_predictions_def shift_once_def free_run_def Let_def

lemma demo_well_formed: "\<forall>r\<in>set demo_records. well_formed demo_htm r"
  by (simp add: demo_records_def well_formed_def consumption_of_def demo_htm_def
        py_index_def demo_toInt_def)

lemma demo_has_keys: "has_keys BuildPandaSystem"
  by (simp add: has_keys_def BuildPandaSystem_def Let_def)

lemma inv_signals:
  assumes "main_inv L records n0 t"
  shows "(pc t = Finished \<longrightarrow> signals t = n0 + length records)
       \<and> ((\<forall>e. pc t \<noteq> Raised e) \<longrightarrow> signals t = n0 + m_count t + mid t)
       \<and> n0 + m_count t \<le> signals t \<and> signals t \<le> n0 + m_count t + 1"
  using assms by (cases "pc t") (simp_all add: main_inv_def mid_def)

text \<open>
  C2.  At the head of the loop, for a record whose two fields parse and with the keys
  \<^verbatim>\<open>BuildPandaSystem\<close> creates in place, the first half of the iteration writes into
  \<^verbatim>\<open>serverData\<close> exactly: for the consumption input the string
  \<^verbatim>\<open>consumption: \<close> followed by the formatted value, the sparse bits and the size of the
  consumption encoding; for the time input the raw date field, the sparse bits and the
  size of the date encoding; for the layer the active columns the pooler computed, the
  winner cells and the predictive cells; then it calls \<^verbatim>\<open>NewStateDataReady\<close> once and
  goes to the busy-wait.  In any run from the start, one signal has been sent per record
  begun: unless an exception stopped the run the number of signals is the number of
  records completed plus one while an iteration is under way, and it is the number of
  records when \<^verbatim>\<open>main\<close> has finished.
\<close>

theorem main_publishes:
  assumes lh: "pc s = LoopHead" and lt: "m_count s < length records"
      and r0: "py_index (records ! m_count s) 0 = Some field0"
      and d: "strptime L field0 = Some dt"
      and r1: "py_index (records ! m_count s) 1 = Some field1"
      and c: "to_float L field1 = Some c"
      and k: "HTMObjects (serverData s) ''HTM1'' = Some ob"
             "inputs ob ''SL_Consumption'' = Some ic"
             "inputs ob ''SL_TimeOfDay'' = Some it"
             "layers ob ''SensoryLayer'' = Some ly"
      and sp: "sp_compute L (lib s) (concatenate L (scalar_encode L c) (date_encode L dt)) = (h1, ac)"
      and h2: "h2 = tm_activateDendrites L h1"
      and s1: "s1 = main_step L records s"
      and t: "t = run L records evs (init_state h0 sd0 ps0)"
      and n0: "n0 = length (newStateData ps0)"
  shows "serverData s1 =
           (serverData s)\<lparr>HTMObjects := (HTMObjects (serverData s))(''HTM1'' \<mapsto>
              ob\<lparr>inputs := (inputs ob)
                     (''SL_Consumption'' \<mapsto> ic\<lparr>stringValue := ''consumption: '' @ format_2f L c,
                                                    bits := sparse (scalar_encode L c),
                                                    count := sdr_size (scalar_encode L c)\<rparr>,
                      ''SL_TimeOfDay'' \<mapsto> it\<lparr>stringValue := field0,
                                                  bits := sparse (date_encode L dt),
                                                  count := sdr_size (date_encode L dt)\<rparr>),
                 layers := (layers ob)
                     (''SensoryLayer'' \<mapsto> ly\<lparr>activeColumns := sparse ac,
                                                winnerCells := sparse (tm_getWinnerCells L h2),
                                                predictiveCells := sparse (tm_getPredictiveCells L h2)\<rparr>)\<rparr>)\<rparr>
       \<and> newStateData (pandaServer s1) = newStateData (pandaServer s) @ [serverData s1]
       \<and> ps_serverData (pandaServer s1) = Some ref_serverData
       \<and> pc s1 = Waiting \<lparr>consumption = c, loc_activeColumns = ac,
                            predictiveCellsSDR = tm_getPredictiveCells L h2\<rparr>
       \<and> (pc t = Finished \<longrightarrow> signals t = n0 + length records)
       \<and> ((\<forall>e. pc t \<noteq> Raised e) \<longrightarrow> signals t = n0 + m_count t + mid t)
       \<and> n0 + m_count t \<le> signals t \<and> signals t \<le> n0 + m_count t + 1"
proof -
  let ?sd = "(serverData s)\<lparr>HTMObjects := (HTMObjects (serverData s))(''HTM1'' \<mapsto>
              ob\<lparr>inputs := (inputs ob)
                     (''SL_Consumption'' \<mapsto> ic\<lparr>stringValue := ''consumption: '' @ format_2f L c,
                                                    bits := sparse (scalar_encode L c),
                                                    count := sdr_size (scalar_encode L c)\<rparr>,
                      ''SL_TimeOfDay'' \<mapsto> it\<lparr>stringValue := field0,
                                                  bits := sparse (date_encode L dt),
                                                  count := sdr_size (date_encode L dt)\<rparr>),
                 layers := (layers ob)
                     (''SensoryLayer'' \<mapsto> ly\<lparr>activeColumns := sparse ac,
                                                winnerCells := sparse (tm_getWinnerCells L h2),
                                                predictiveCells := sparse (tm_getPredictiveCells L h2)\<rparr>)\<rparr>)\<rparr>"
  have f: "fill_serverData (''consumption: '' @ format_2f L c) field0 (scalar_encode L c)
             (date_encode L dt) ac (tm_getWinnerCells L h2) (tm_getPredictiveCells L h2)
             (serverData s) = (None, ?sd)"
    by (rule fill_serverData_ok [OF k])
  have p: "publish L (records ! m_count s) s =
             (Inr \<lparr>consumption = c, loc_activeColumns = ac,
                   predictiveCellsSDR = tm_getPredictiveCells L h2\<rparr>,
              s\<lparr>m_inputs := m_inputs s @ [c], lib := h2, serverData := ?sd,
                pandaServer := NewStateDataReady ?sd
                  ((pandaServer s)\<lparr>ps_serverData := Some ref_serverData,
                     spatialPoolers := (spatialPoolers (pandaServer s))(''HTM1'' \<mapsto> ref_sp),
                     temporalMemories := (temporalMemories (pandaServer s))(''HTM1'' \<mapsto> ref_tm)\<rparr>)\<rparr>)"
    using f by (simp add: publish_def r0 d r1 c sp h2 [symmetric] Let_def del: append.simps)
  have a: "serverData s1 = ?sd
       \<and> newStateData (pandaServer s1) = newStateData (pandaServer s) @ [serverData s1]
       \<and> ps_serverData (pandaServer s1) = Some ref_serverData
       \<and> pc s1 = Waiting \<lparr>consumption = c, loc_activeColumns = ac,
                            predictiveCellsSDR = tm_getPredictiveCells L h2\<rparr>"
    unfolding s1 by (simp add: main_step_def lh lt p NewStateDataReady_def del: append.simps)
  have "main_inv L records n0 t"
    unfolding t n0 by (rule run_inv [OF init_inv])
  from a inv_signals [OF this] show ?thesis by blast
qed

text \<open>
  The first record of the small input; and the whole input run to the end sends two
  signals.
\<close>

theorem main_publishes_witness:
  "(case HTMObjects (serverData (main_step demo_htm demo_records demo_looping)) ''HTM1'' of
      None \<Rightarrow> False
    | Some ob \<Rightarrow>
        inputs ob ''SL_Consumption''
          = Some \<lparr>stringValue = ''consumption: 5.00'', bits = [5], count = 10\<rparr>
        \<and> inputs ob ''SL_TimeOfDay''
          = Some \<lparr>stringValue = ''7/2/10 0:00'', bits = [11], count = 20\<rparr>
        \<and> layers ob ''SensoryLayer''
          = Some \<lparr>columnCount = 1638, cellsPerColumn = 13, activeColumns = [5],
                  winnerCells = [1], predictiveCells = [0],
                  proximalInputs = [''SL_Consumption'', ''SL_TimeOfDay'']\<rparr>)
   \<and> signals (main_step demo_htm demo_records demo_looping) = 1
   \<and> pc (run demo_htm demo_records (free_run 2) demo_looping) = Finished
   \<and> signals (run demo_htm demo_records (free_run 2) demo_looping) = 2"
proof -
  have len: "length demo_records = 2" by (simp add: demo_records_def)
  have fin: "pc (run demo_htm demo_records (free_run 2) demo_looping) = Finished"
    using completion [OF demo_well_formed demo_has_keys, of "demo_server\<lparr>runInLoop := True\<rparr>" 0]
    unfolding len demo_looping_def by simp
  have h: "pc demo_looping = LoopHead" "m_count demo_looping < length demo_records"
    "py_index (demo_records ! m_count demo_looping) 0 = Some ''7/2/10 0:00''"
    "strptime demo_htm ''7/2/10 0:00'' = Some ''7/2/10 0:00''"
    "py_index (demo_records ! m_count demo_looping) 1 = Some ''5''"
    "to_float demo_htm ''5'' = Some 5"
    by (simp_all add: demo_looping_def init_state_def demo_records_def py_index_def demo_htm_def
          demo_toInt_def)
  have k: "HTMObjects (serverData demo_looping) ''HTM1'' =
             Some \<lparr>inputs = Map.empty(''SL_Consumption'' \<mapsto> new_dataInput, ''SL_TimeOfDay'' \<mapsto> new_dataInput),
                   layers = Map.empty(''SensoryLayer'' \<mapsto>
                     (new_dataLayer 1638 13)\<lparr>proximalInputs := [''SL_Consumption'', ''SL_TimeOfDay'']\<rparr>)\<rparr>"
    by (simp add: demo_looping_def init_state_def BuildPandaSystem_def Let_def)
  have k2: "inputs \<lparr>inputs = Map.empty(''SL_Consumption'' \<mapsto> new_dataInput, ''SL_TimeOfDay'' \<mapsto> new_dataInput),
                   layers = Map.empty(''SensoryLayer'' \<mapsto>
                     (new_dataLayer 1638 13)\<lparr>proximalInputs := [''SL_Consumption'', ''SL_TimeOfDay'']\<rparr>)\<rparr>
               ''SL_Consumption'' = Some new_dataInput"
    "inputs \<lparr>inputs = Map.empty(''SL_Consumption'' \<mapsto> new_dataInput, ''SL_TimeOfDay'' \<mapsto> new_dataInput),
                   layers = Map.empty(''SensoryLayer'' \<mapsto>
                     (new_dataLayer 1638 13)\<lparr>proximalInputs := [''SL_Consumption'', ''SL_TimeOfDay'']\<rparr>)\<rparr>
               ''SL_TimeOfDay'' = Some new_dataInput"
    "layers \<lparr>inputs = Map.empty(''SL_Consumption'' \<mapsto> new_dataInput, ''SL_TimeOfDay'' \<mapsto> new_dataInput),
                   layers = Map.empty(''SensoryLayer'' \<mapsto>
                     (new_dataLayer 1638 13)\<lparr>proximalInputs := [''SL_Consumption'', ''SL_TimeOfDay'']\<rparr>)\<rparr>
               ''SensoryLayer'' = Some ((new_dataLayer 1638 13)\<lparr>proximalInputs := [''SL_Consumption'', ''SL_TimeOfDay'']\<rparr>)"
    by simp_all
  have sp: "sp_compute demo_htm (lib demo_looping)
              (concatenate demo_htm (scalar_encode demo_htm 5) (date_encode demo_htm ''7/2/10 0:00''))
            = (0, \<lparr>sparse = [5], sdr_size = 4\<rparr>)"
    by (simp add: demo_htm_def demo_looping_def init_state_def)
  note t = main_publishes [OF h k k2 sp refl refl refl refl,
      where evs = "free_run 2" and ?h0.0 = 0 and ?sd0.0 = BuildPandaSystem
        and ?ps0.0 = "demo_server\<lparr>runInLoop := True\<rparr>"]
  have e: "format_2f demo_htm 5 = ''5.00''" "scalar_encode demo_htm 5 = \<lparr>sparse = [5], sdr_size = 10\<rparr>"
    "date_encode demo_htm ''7/2/10 0:00'' = \<lparr>sparse = [11], sdr_size = 20\<rparr>"
    "tm_getWinnerCells demo_htm (tm_activateDendrites demo_htm 0) = \<lparr>sparse = [1], sdr_size = 8\<rparr>"
    "tm_getPredictiveCells demo_htm (tm_activateDendrites demo_htm 0) = \<lparr>sparse = [0], sdr_size = 8\<rparr>"
    by (simp_all add: demo_htm_def)
  from t have a: "serverData (main_step demo_htm demo_records demo_looping) =
      (serverData demo_looping)\<lparr>HTMObjects := (HTMObjects (serverData demo_looping))(''HTM1'' \<mapsto>
         \<lparr>inputs = Map.empty
            (''SL_Consumption'' \<mapsto> \<lparr>stringValue = ''consumption: 5.00'', bits = [5], count = 10\<rparr>,
             ''SL_TimeOfDay'' \<mapsto> \<lparr>stringValue = ''7/2/10 0:00'', bits = [11], count = 20\<rparr>),
           layers = Map.empty
            (''SensoryLayer'' \<mapsto> \<lparr>columnCount = 1638, cellsPerColumn = 13, activeColumns = [5],
                  winnerCells = [1], predictiveCells = [0],
                  proximalInputs = [''SL_Consumption'', ''SL_TimeOfDay'']\<rparr>)\<rparr>)\<rparr>"
    by (simp add: e new_dataInput_def new_dataLayer_def)
  from t have b: "newStateData (pandaServer (main_step demo_htm demo_records demo_looping))
                    = newStateData (pandaServer demo_looping)
                      @ [serverData (main_step demo_htm demo_records demo_looping)]"
    by blast
  from t fin have c: "signals (run demo_htm demo_records (free_run 2) demo_looping) = 2"
    unfolding len by (simp add: demo_looping_def demo_server_def)
  have s: "signals (main_step demo_htm demo_records demo_looping) = 1"
    unfolding signals_def b by (simp add: demo_looping_def init_state_def demo_server_def)
  show ?thesis
    unfolding a using s fin c by simp
qed

section \<open>Theorems: one step per record, and the shifted predictions\<close>

lemma inv_progress:
  assumes "main_inv L records n0 t" and "\<forall>e. pc t \<noteq> Raised e"
  shows "m_count t \<le> length records
       \<and> map Some (m_inputs t) = map (consumption_of L) (take (m_count t + mid t) records)"
  using assms by (cases "pc t") (simp_all add: main_inv_def mid_def)

text \<open>
  C3.  \<^verbatim>\<open>main\<close> drops the first three rows of the file (it raises
  \<^verbatim>\<open>StopIteration\<close> when there are fewer) and keeps every other row, in file order, as
  a record.  In a run of the loop the records are taken in order, one step each: unless
  an exception stopped the run, the inputs recorded so far are the consumption fields of
  the first records, and when \<^verbatim>\<open>main\<close> has finished, the number of steps made is the
  number of records and the inputs are the consumption fields of all of them.  When
  every record is well formed, the dictionaries are in place and the server lets the
  loop run, \<^verbatim>\<open>main\<close> does finish.
\<close>

theorem main_one_step_per_record:
  assumes t: "t = run L records evs (init_state h sd ps)"
  shows "read_records rows = (if length rows < 3 then Inl StopIteration else Inr (drop 3 rows))
       \<and> ((\<forall>e. pc t \<noteq> Raised e) \<longrightarrow>
             m_count t \<le> length records
             \<and> map Some (m_inputs t) = map (consumption_of L) (take (m_count t + mid t) records))
       \<and> (pc t = Finished \<longrightarrow>
             m_count t = length records
             \<and> map Some (m_inputs t) = map (consumption_of L) records
             \<and> length (m_inputs t) = length records)
       \<and> ((\<forall>r\<in>set records. well_formed L r) \<and> has_keys sd \<and> runInLoop ps \<longrightarrow>
             pc (run L records (free_run (length records)) (init_state h sd ps)) = Finished)"
proof -
  have i: "main_inv L records (length (newStateData ps)) t"
    unfolding t by (rule run_inv [OF init_inv])
  have a: "(\<forall>e. pc t \<noteq> Raised e) \<longrightarrow>
             m_count t \<le> length records
             \<and> map Some (m_inputs t) = map (consumption_of L) (take (m_count t + mid t) records)"
    using inv_progress [OF i] by blast
  have b: "pc t = Finished \<longrightarrow>
             m_count t = length records
             \<and> map Some (m_inputs t) = map (consumption_of L) records
             \<and> length (m_inputs t) = length records"
    using finished_facts [OF i] by blast
  have c: "(\<forall>r\<in>set records. well_formed L r) \<and> has_keys sd \<and> runInLoop ps \<longrightarrow>
             pc (run L records (free_run (length records)) (init_state h sd ps)) = Finished"
    using completion [of records L sd ps h] by blast
  from read_records_eq [of rows] a b c show ?thesis by blast
qed

text \<open>
  The small file has five rows, and two records; the run in which the server lets the
  loop run ends after two steps with the inputs 5 and 7.
\<close>

theorem main_one_step_per_record_witness:
  "read_records demo_rows = Inr demo_records
   \<and> pc (run demo_htm demo_records (free_run 2) demo_looping) = Finished
   \<and> m_count (run demo_htm demo_records (free_run 2) demo_looping) = 2
   \<and> m_inputs (run demo_htm demo_records (free_run 2) demo_looping) = [5, 7]"
proof -
  have len: "length demo_records = 2" by (simp add: demo_records_def)
  have rl: "runInLoop (demo_server\<lparr>runInLoop := True\<rparr>)" by simp
  note t = main_one_step_per_record [where rows = demo_rows and L = demo_htm
      and records = demo_records and evs = "free_run 2" and h = 0 and sd = BuildPandaSystem
      and ps = "demo_server\<lparr>runInLoop := True\<rparr>", OF refl,
      unfolded len, folded demo_looping_def]
  from t have r: "read_records demo_rows = Inr demo_records"
    by (simp add: demo_rows_def demo_records_def)
  from t demo_well_formed demo_has_keys rl
  have f: "pc (run demo_htm demo_records (free_run 2) demo_looping) = Finished"
    by blast
  with t have m: "m_count (run demo_htm demo_records (free_run 2) demo_looping) = 2"
    and i: "map Some (m_inputs (run demo_htm demo_records (free_run 2) demo_looping))
              = map (consumption_of demo_htm) demo_records"
    by blast+
  have "map (consumption_of demo_htm) demo_records = map Some [5, 7]"
    by (simp add: demo_records_def consumption_of_def demo_htm_def py_index_def demo_toInt_def)
  with i have "map Some (m_inputs (run demo_htm demo_records (free_run 2) demo_looping))
                 = map Some [5, 7]"
    by simp
  then have "m_inputs (run demo_htm demo_records (free_run 2) demo_looping) = [5, 7]"
    by (simp only: inj_map_eq_map [OF inj_Some])
  with r f m show ?thesis by simp
qed

lemma publish_predictions: "predictions (snd (publish L r s)) = predictions s"
  by (auto simp: publish_def Let_def split: option.splits prod.splits)

lemma append_prediction_mem:
  "(n, pl) \<in> set preds \<Longrightarrow> (n, pl @ (if n = k then [v] else [])) \<in> set (append_prediction k v preds)"
  by (force simp: append_prediction_def)

lemma learn_predictions_mem:
  assumes l: "learn L lc u = (x, u1)" and m: "(n, pl) \<in> set (predictions u)"
      and n: "n = 1 \<or> n = 5"
  shows "(n, pl @ [produced L lc u n]) \<in> set (predictions u1)"
proof -
  let ?v = "\<lambda>k. produced L lc u k"
  from learn_fields [OF l]
  have p: "predictions u1 = append_prediction 5 (?v 5) (append_prediction 1 (?v 1) (predictions u))"
    by (simp add: produced_def Let_def)
  from append_prediction_mem [OF m, of 1 "?v 1"]
  have a: "(n, pl @ (if n = 1 then [?v 1] else [])) \<in> set (append_prediction 1 (?v 1) (predictions u))" .
  from append_prediction_mem [OF a, of 5 "?v 5"]
  have "(n, (pl @ (if n = 1 then [?v 1] else [])) @ (if n = 5 then [?v 5] else []))
          \<in> set (predictions u1)"
    unfolding p .
  with n show ?thesis by auto
qed

lemma learn_predictions_prefix:
  assumes l: "learn L lc u = (x, u1)" and m: "(n, pl) \<in> set (predictions u)"
  shows "\<exists>ext. (n, pl @ ext) \<in> set (predictions u1)"
proof -
  let ?v = "\<lambda>k. produced L lc u k"
  from learn_fields [OF l]
  have p: "predictions u1 = append_prediction 5 (?v 5) (append_prediction 1 (?v 1) (predictions u))"
    by (simp add: produced_def Let_def)
  from append_prediction_mem [OF m, of 1 "?v 1"]
  have a: "(n, pl @ (if n = 1 then [?v 1] else [])) \<in> set (append_prediction 1 (?v 1) (predictions u))" .
  from append_prediction_mem [OF a, of 5 "?v 5"]
  have "(n, pl @ ((if n = 1 then [?v 1] else []) @ (if n = 5 then [?v 5] else [])))
          \<in> set (predictions u1)"
    unfolding p by simp
  then show ?thesis by blast
qed

lemma main_step_learning_predictions:
  assumes "pc u = Learning lc" and "learn L lc u = (x, u1)"
  shows "predictions (main_step L records u) = predictions u1"
  using assms by (cases x) (simp_all add: main_step_def)

lemma main_step_prefix:
  assumes m: "(n, pl) \<in> set (predictions u)" and nf: "pc (main_step L records u) \<noteq> Finished"
  shows "\<exists>ext. (n, pl @ ext) \<in> set (predictions (main_step L records u))"
proof (cases "pc u")
  case LoopHead
  show ?thesis
  proof (cases "m_count u < length records")
    case True
    obtain x s1 where p: "publish L (records ! m_count u) u = (x, s1)"
      by (cases "publish L (records ! m_count u) u") auto
    from publish_predictions [of L "records ! m_count u" u] p
    have e: "predictions s1 = predictions u" by simp
    have "predictions (main_step L records u) = predictions u"
      by (cases x) (simp_all add: main_step_def LoopHead True p e)
    with m have "(n, pl @ []) \<in> set (predictions (main_step L records u))" by simp
    then show ?thesis by blast
  next
    case False
    with LoopHead nf show ?thesis by (simp add: main_step_def)
  qed
next
  case (Waiting lc)
  with m have "(n, pl @ []) \<in> set (predictions (main_step L records u))"
    by (simp add: main_step_def)
  then show ?thesis by blast
next
  case (Resetting lc)
  with m have "(n, pl @ []) \<in> set (predictions (main_step L records u))"
    by (simp add: main_step_def)
  then show ?thesis by blast
next
  case (Learning lc)
  obtain x u1 where l: "learn L lc u = (x, u1)"
    by (cases "learn L lc u") auto
  from learn_predictions_prefix [OF l m] main_step_learning_predictions [OF Learning l, of records]
  show ?thesis by simp
next
  case Finished
  with m have "(n, pl @ []) \<in> set (predictions (main_step L records u))"
    by (simp add: main_step_def)
  then show ?thesis by blast
next
  case (Raised e)
  with m have "(n, pl @ []) \<in> set (predictions (main_step L records u))"
    by (simp add: main_step_def)
  then show ?thesis by blast
qed

lemma step_prefix:
  assumes m: "(n, pl) \<in> set (predictions u)" and nf: "pc (step L records e u) \<noteq> Finished"
  shows "\<exists>ext. (n, pl @ ext) \<in> set (predictions (step L records e u))"
proof (cases e)
  case Main
  with main_step_prefix [OF m, of L records] nf show ?thesis by (simp add: step_def)
next
  case (SetRunInLoop b)
  with m have "(n, pl @ []) \<in> set (predictions (step L records e u))" by (simp add: step_def)
  then show ?thesis by blast
next
  case (SetRunOneStep b)
  with m have "(n, pl @ []) \<in> set (predictions (step L records e u))" by (simp add: step_def)
  then show ?thesis by blast
qed

lemma finished_absorbing:
  "pc u = Finished \<Longrightarrow> pc (run L records evs u) = Finished"
proof (induction evs arbitrary: u)
  case Nil
  then show ?case by (simp add: run_Nil)
next
  case (Cons e evs)
  from Cons.prems have "pc (step L records e u) = Finished"
    by (cases e) (simp_all add: step_def main_step_def)
  from Cons.IH [OF this] show ?case by (simp add: run_Cons)
qed

lemma run_prefix:
  "(n, pl) \<in> set (predictions u) \<Longrightarrow> pc (run L records evs u) \<noteq> Finished
   \<Longrightarrow> \<exists>ext. (n, pl @ ext) \<in> set (predictions (run L records evs u))"
proof (induction evs arbitrary: u pl)
  case Nil
  then have "(n, pl @ []) \<in> set (predictions (run L records [] u))" by (simp add: run_Nil)
  then show ?case by blast
next
  case (Cons e evs)
  have nf: "pc (step L records e u) \<noteq> Finished"
  proof
    assume "pc (step L records e u) = Finished"
    from finished_absorbing [OF this, of L records evs] Cons.prems(2)
    show False by (simp add: run_Cons)
  qed
  from step_prefix [OF Cons.prems(1) nf] obtain ext1 where
    a: "(n, pl @ ext1) \<in> set (predictions (step L records e u))" by blast
  from Cons.prems(2) have b: "pc (run L records evs (step L records e u)) \<noteq> Finished"
    by (simp add: run_Cons)
  from Cons.IH [OF a b] obtain ext2 where
    "(n, (pl @ ext1) @ ext2) \<in> set (predictions (run L records evs (step L records e u)))" by blast
  then have "(n, pl @ (ext1 @ ext2)) \<in> set (predictions (run L records (e # evs) u))"
    by (simp add: run_Cons)
  then show ?case by blast
qed

lemma m_count_main_step:
  "m_count (main_step L records t) = m_count t
   \<or> ((\<exists>lc. pc t = Learning lc) \<and> m_count (main_step L records t) = m_count t + 1)"
proof (cases "pc t")
  case LoopHead
  show ?thesis
  proof (cases "m_count t < length records")
    case True
    obtain x s1 where p: "publish L (records ! m_count t) t = (x, s1)"
      by (cases "publish L (records ! m_count t) t") auto
    show ?thesis
    proof (cases x)
      case (Inl e)
      from publish_Inl [OF p [unfolded Inl]] show ?thesis
        by (simp add: main_step_def LoopHead True p Inl)
    next
      case (Inr lc)
      from publish_Inr [OF p [unfolded Inr]] show ?thesis
        by (auto simp: main_step_def LoopHead True p Inr)
    qed
  next
    case False
    with LoopHead show ?thesis by (simp add: main_step_def)
  qed
next
  case (Learning lc)
  obtain x u1 where l: "learn L lc t = (x, u1)"
    by (cases "learn L lc t") auto
  from learn_fields [OF l] have "m_count u1 = m_count t" by simp
  with Learning l show ?thesis by (cases x) (simp_all add: main_step_def)
qed (simp_all add: main_step_def)

lemma m_count_step:
  "m_count (step L records e t) = m_count t
   \<or> (e = Main \<and> (\<exists>lc. pc t = Learning lc) \<and> m_count (step L records e t) = m_count t + 1)"
  using m_count_main_step [of L records t] by (cases e) (simp_all add: step_def)

lemma step_of_index:
  assumes lo: "m_count s0 \<le> j"
  shows "j < m_count (run L records evs s0) \<Longrightarrow>
         \<exists>evs1 evs2 lc. evs = evs1 @ Main # evs2 \<and> pc (run L records evs1 s0) = Learning lc
            \<and> m_count (run L records evs1 s0) = j"
proof (induction evs rule: rev_induct)
  case Nil
  with lo show ?case by (simp add: run_Nil)
next
  case (snoc e xs)
  let ?t = "run L records xs s0"
  have r: "run L records (xs @ [e]) s0 = step L records e ?t"
    by (simp add: run_append run_Cons run_Nil)
  show ?case
  proof (cases "j < m_count ?t")
    case True
    from snoc.IH [OF True] obtain evs1 evs2 lc where
      "xs = evs1 @ Main # evs2" "pc (run L records evs1 s0) = Learning lc"
      "m_count (run L records evs1 s0) = j"
      by blast
    then have "xs @ [e] = evs1 @ Main # (evs2 @ [e]) \<and> pc (run L records evs1 s0) = Learning lc
            \<and> m_count (run L records evs1 s0) = j"
      by simp
    then show ?thesis by blast
  next
    case False
    with snoc.prems r have ne: "m_count (step L records e ?t) \<noteq> m_count ?t" by simp
    with m_count_step [of L records e ?t] obtain lc where
      e: "e = Main" and p: "pc ?t = Learning lc" and c: "m_count (step L records e ?t) = m_count ?t + 1"
      by blast
    from False snoc.prems r c have "m_count ?t = j" by simp
    with e p have "xs @ [e] = xs @ Main # [] \<and> pc (run L records xs s0) = Learning lc
            \<and> m_count (run L records xs s0) = j"
      by simp
    then show ?thesis by blast
  qed
qed

lemma predictions_unique:
  assumes "map fst preds = [1::nat, 5]" and "(n, p) \<in> set preds" and "(n, q) \<in> set preds"
  shows "p = q"
proof -
  from assms(1) obtain a b where "preds = [(1::nat, a), (5, b)]"
    by (cases preds; cases "tl preds") auto
  with assms(2,3) show ?thesis by auto
qed

lemma predictions_key:
  assumes "map fst preds = [1::nat, 5]" and "n = 1 \<or> n = 5"
  shows "\<exists>p. (n, p) \<in> set preds"
proof -
  from assms(1) obtain a b where "preds = [(1::nat, a), (5, b)]"
    by (cases preds; cases "tl preds") auto
  with assms(2) show ?thesis by auto
qed

text \<open>
  C7.  When the loop has ended (the main thread is at the loop head with every record
  done), the next step shifts the predictions and finishes.  For each list
  \<open>(n, pl)\<close> of the dictionary, \<open>n\<close> is 1 or 5, and the shifted list \<open>pl1\<close> has the
  length of \<open>pl\<close>, which is the number of inputs; its entries before position \<open>n\<close> are
  NaN, and its entry at a position \<open>i\<close> from \<open>n\<close> on is entry \<open>i - n\<close> of \<open>pl\<close>.
  Entry \<open>j\<close> of \<open>pl\<close> is the prediction produced at step \<open>j\<close>: the run has a main
  step that starts the second half of iteration \<open>j\<close>, and entry \<open>j\<close> of \<open>pl\<close>, and
  so entry \<open>j + n\<close> of \<open>pl1\<close> when there is one, is the prediction that step computes.
  So the last \<open>n\<close> predictions produced are gone (all of them when there are fewer
  than \<open>n\<close>).
\<close>

theorem predictions_shifted:
  fixes s :: "('f, 'h) mstate" and L :: "('d, 'f, 'h) htm"
  assumes s: "s = run L records evs (init_state h sd ps)"
      and lh: "pc s = LoopHead" and dn: "m_count s = length records"
      and s1: "s1 = main_step L records s"
      and m: "(n, pl) \<in> set (predictions s)"
      and pl1: "pl1 = shift_list n pl"
  shows "(n = 1 \<or> n = 5) \<and> pc s1 = Finished
       \<and> map fst (predictions s1) = [1, 5] \<and> (n, pl1) \<in> set (predictions s1)
       \<and> length pl = length records
       \<and> length pl1 = length (m_inputs s1)
       \<and> (\<forall>i<length pl1. (i < n \<longrightarrow> pl1 ! i = NaN) \<and> (n \<le> i \<longrightarrow> pl1 ! i = pl ! (i - n)))
       \<and> (n \<le> length pl \<longrightarrow> pl1 = replicate n NaN @ take (length pl - n) pl)
       \<and> (\<forall>j<length records.
             \<exists>evs1 evs2 lc. evs = evs1 @ Main # evs2
               \<and> pc (run L records evs1 (init_state h sd ps)) = Learning lc
               \<and> m_count (run L records evs1 (init_state h sd ps)) = j
               \<and> pl ! j = produced L lc (run L records evs1 (init_state h sd ps)) n
               \<and> (j + n < length records \<longrightarrow>
                    pl1 ! (j + n) = produced L lc (run L records evs1 (init_state h sd ps)) n))"
proof -
  let ?init = "init_state h sd ps :: ('f, 'h) mstate"
  let ?n0 = "length (newStateData ps)"
  have i: "main_inv L records ?n0 s"
    unfolding s by (rule run_inv [OF init_inv])
  from i lh have k: "map fst (predictions s) = [1, 5]"
    and l: "\<forall>x\<in>set (predictions s). length (snd x) = m_count s"
    by (simp_all add: main_inv_def)
  from m have "n \<in> set (map fst (predictions s))" by force
  with k have n: "n = 1 \<or> n = 5" by simp
  from l m have lp: "length pl = length records" using dn by force
  have e: "s1 = s\<lparr>predictions := shift_predictions (predictions s), pc := Finished\<rparr>"
    unfolding s1 by (simp add: main_step_def lh dn)
  have i1: "main_inv L records ?n0 s1"
    unfolding s1 by (rule main_step_inv [OF i])
  have f: "pc s1 = Finished" by (simp add: e)
  from finished_facts [OF i1 f] have li: "length (m_inputs s1) = length records"
    and k1: "map fst (predictions s1) = [1, 5]"
    by simp_all
  have m1: "(n, pl1) \<in> set (predictions s1)"
    unfolding pl1 e using shift_predictions_mem [OF m] by simp
  have len: "length pl1 = length (m_inputs s1)"
    by (simp add: pl1 shift_list_length lp li)
  have nth: "\<forall>i<length pl1. (i < n \<longrightarrow> pl1 ! i = NaN) \<and> (n \<le> i \<longrightarrow> pl1 ! i = pl ! (i - n))"
    by (simp add: pl1 shift_list_length shift_list_nth)
  have sp: "n \<le> length pl \<longrightarrow> pl1 = replicate n NaN @ take (length pl - n) pl"
    unfolding pl1 using shift_list_split by blast
  have pr: "\<forall>j<length records.
             \<exists>evs1 evs2 lc. evs = evs1 @ Main # evs2
               \<and> pc (run L records evs1 ?init) = Learning lc
               \<and> m_count (run L records evs1 ?init) = j
               \<and> pl ! j = produced L lc (run L records evs1 ?init) n
               \<and> (j + n < length records \<longrightarrow>
                    pl1 ! (j + n) = produced L lc (run L records evs1 ?init) n)"
  proof (intro allI impI)
    fix j assume j: "j < length records"
    have lo: "m_count ?init \<le> j" by (simp add: init_state_def)
    from j dn s have hi: "j < m_count (run L records evs ?init)" by simp
    from step_of_index [OF lo hi] obtain evs1 evs2 lc where
      sp1: "evs = evs1 @ Main # evs2" and pu: "pc (run L records evs1 ?init) = Learning lc"
      and mu: "m_count (run L records evs1 ?init) = j"
      by blast
    let ?u = "run L records evs1 ?init"
    have iu: "main_inv L records ?n0 ?u" by (rule run_inv [OF init_inv])
    from iu pu have ku: "map fst (predictions ?u) = [1, 5]"
      and lu: "\<forall>x\<in>set (predictions ?u). length (snd x) = m_count ?u"
      by (simp_all add: main_inv_def)
    from predictions_key [OF ku n] obtain p0 where p0: "(n, p0) \<in> set (predictions ?u)" by blast
    with lu mu have l0: "length p0 = j" by force
    obtain x u1 where le: "learn L lc ?u = (x, u1)"
      by (cases "learn L lc ?u") auto
    from learn_predictions_mem [OF le p0 n]
      main_step_learning_predictions [OF pu le, of records]
    have a: "(n, p0 @ [produced L lc ?u n]) \<in> set (predictions (main_step L records ?u))"
      by simp
    have se: "s = run L records evs2 (main_step L records ?u)"
      unfolding s sp1 by (simp add: run_append run_Cons step_def)
    from lh se have nf: "pc (run L records evs2 (main_step L records ?u)) \<noteq> Finished" by simp
    from run_prefix [OF a nf] se obtain ext where
      "(n, (p0 @ [produced L lc ?u n]) @ ext) \<in> set (predictions s)"
      by auto
    from predictions_unique [OF k m this]
    have pe: "pl = (p0 @ [produced L lc ?u n]) @ ext" .
    have pj: "pl ! j = produced L lc ?u n"
      unfolding pe using l0 by (simp add: nth_append)
    have "pl1 ! (j + n) = produced L lc ?u n" if "j + n < length records"
      using that pj lp by (simp add: pl1 shift_list_nth)
    with sp1 pu mu pj
    show "\<exists>evs1 evs2 lc. evs = evs1 @ Main # evs2
               \<and> pc (run L records evs1 ?init) = Learning lc
               \<and> m_count (run L records evs1 ?init) = j
               \<and> pl ! j = produced L lc (run L records evs1 ?init) n
               \<and> (j + n < length records \<longrightarrow>
                    pl1 ! (j + n) = produced L lc (run L records evs1 ?init) n)"
      by blast
  qed
  from n f k1 m1 lp len nth sp pr show ?thesis by blast
qed

text \<open>
  In the small run step 0 produces the prediction 1 and step 1 the prediction 2, one step
  ahead, and none five steps ahead.  After the two records the lists are \<open>[1, 2]\<close> and
  \<open>[NaN, NaN]\<close>; shifted, \<open>[NaN, 1]\<close> and \<open>[NaN, NaN]\<close>: the prediction of step 0
  stands at position 1, and the prediction of step 1 is gone.
\<close>

theorem predictions_shifted_witness:
  "pc (run demo_htm demo_records [Main, Main, Main, Main, Main, Main, Main, Main] demo_looping) = LoopHead
   \<and> m_count (run demo_htm demo_records [Main, Main, Main, Main, Main, Main, Main, Main] demo_looping)
       = length demo_records
   \<and> (1, [Predicted 1, Predicted 2])
       \<in> set (predictions (run demo_htm demo_records [Main, Main, Main, Main, Main, Main, Main, Main] demo_looping))
   \<and> shift_list 1 [Predicted 1, Predicted 2] = [NaN, Predicted 1]
   \<and> (1, [NaN, Predicted 1])
       \<in> set (predictions (main_step demo_htm demo_records
            (run demo_htm demo_records [Main, Main, Main, Main, Main, Main, Main, Main] demo_looping)))
   \<and> [NaN, Predicted 1] ! 0 = NaN
   \<and> (\<exists>evs1 evs2 lc. [Main, Main, Main, Main, Main, Main, Main, Main] = evs1 @ Main # evs2
         \<and> pc (run demo_htm demo_records evs1 demo_looping) = Learning lc
         \<and> m_count (run demo_htm demo_records evs1 demo_looping) = 0
         \<and> [NaN, Predicted 1] ! 1 = produced demo_htm lc (run demo_htm demo_records evs1 demo_looping) 1)
   \<and> pc (run demo_htm demo_records [Main, Main, Main] demo_looping)
       = Learning \<lparr>consumption = 5, loc_activeColumns = \<lparr>sparse = [5], sdr_size = 4\<rparr>,
                    predictiveCellsSDR = \<lparr>sparse = [0], sdr_size = 8\<rparr>\<rparr>
   \<and> produced demo_htm \<lparr>consumption = 5, loc_activeColumns = \<lparr>sparse = [5], sdr_size = 4\<rparr>,
                          predictiveCellsSDR = \<lparr>sparse = [0], sdr_size = 8\<rparr>\<rparr>
        (run demo_htm demo_records [Main, Main, Main] demo_looping) 1 = Predicted 1
   \<and> pc (run demo_htm demo_records [Main, Main, Main, Main, Main, Main, Main] demo_looping)
       = Learning \<lparr>consumption = 7, loc_activeColumns = \<lparr>sparse = [7], sdr_size = 4\<rparr>,
                    predictiveCellsSDR = \<lparr>sparse = [1], sdr_size = 8\<rparr>\<rparr>
   \<and> produced demo_htm \<lparr>consumption = 7, loc_activeColumns = \<lparr>sparse = [7], sdr_size = 4\<rparr>,
                          predictiveCellsSDR = \<lparr>sparse = [1], sdr_size = 8\<rparr>\<rparr>
        (run demo_htm demo_records [Main, Main, Main, Main, Main, Main, Main] demo_looping) 1 = Predicted 2"
proof -
  let ?s = "run demo_htm demo_records [Main, Main, Main, Main, Main, Main, Main, Main] demo_looping"
  have a: "pc ?s = LoopHead" by (simp add: demo_run_defs)
  have b: "m_count ?s = length demo_records" by (simp add: demo_run_defs)
  have c: "(1, [Predicted 1, Predicted 2]) \<in> set (predictions ?s)" by (simp add: demo_run_defs)
  have d: "shift_list 1 [Predicted 1, Predicted 2] = [NaN, Predicted 1]"
    by (simp add: shift_once_def)
  have s0: "?s = run demo_htm demo_records [Main, Main, Main, Main, Main, Main, Main, Main]
                  (init_state 0 BuildPandaSystem (demo_server\<lparr>runInLoop := True\<rparr>))"
    by (simp only: demo_looping_def)
  have len: "length demo_records = 2" by (simp add: demo_records_def)
  note t = predictions_shifted [OF s0 a b refl c d [symmetric], folded demo_looping_def]
  note e = t [THEN conjunct2, THEN conjunct2, THEN conjunct2, THEN conjunct1]
  note pr = t [THEN conjunct2, THEN conjunct2, THEN conjunct2, THEN conjunct2, THEN conjunct2,
      THEN conjunct2, THEN conjunct2, THEN conjunct2]
  have z: "0 < length demo_records" by (simp add: len)
  from pr [rule_format, OF z]
  have f: "\<exists>evs1 evs2 lc. [Main, Main, Main, Main, Main, Main, Main, Main] = evs1 @ Main # evs2
         \<and> pc (run demo_htm demo_records evs1 demo_looping) = Learning lc
         \<and> m_count (run demo_htm demo_records evs1 demo_looping) = 0
         \<and> [NaN, Predicted 1] ! 1 = produced demo_htm lc (run demo_htm demo_records evs1 demo_looping) 1"
    unfolding len by simp
  have g: "pc (run demo_htm demo_records [Main, Main, Main] demo_looping)
       = Learning \<lparr>consumption = 5, loc_activeColumns = \<lparr>sparse = [5], sdr_size = 4\<rparr>,
                    predictiveCellsSDR = \<lparr>sparse = [0], sdr_size = 8\<rparr>\<rparr>"
    "produced demo_htm \<lparr>consumption = 5, loc_activeColumns = \<lparr>sparse = [5], sdr_size = 4\<rparr>,
                          predictiveCellsSDR = \<lparr>sparse = [0], sdr_size = 8\<rparr>\<rparr>
        (run demo_htm demo_records [Main, Main, Main] demo_looping) 1 = Predicted 1"
    "pc (run demo_htm demo_records [Main, Main, Main, Main, Main, Main, Main] demo_looping)
       = Learning \<lparr>consumption = 7, loc_activeColumns = \<lparr>sparse = [7], sdr_size = 4\<rparr>,
                    predictiveCellsSDR = \<lparr>sparse = [1], sdr_size = 8\<rparr>\<rparr>"
    "produced demo_htm \<lparr>consumption = 7, loc_activeColumns = \<lparr>sparse = [7], sdr_size = 4\<rparr>,
                          predictiveCellsSDR = \<lparr>sparse = [1], sdr_size = 8\<rparr>\<rparr>
        (run demo_htm demo_records [Main, Main, Main, Main, Main, Main, Main] demo_looping) 1 = Predicted 2"
    by (simp_all add: produced_def demo_run_defs)
  have h: "[NaN, Predicted 1] ! 0 = NaN" by simp
  show ?thesis
    using a b c d e h f g by (intro conjI) assumption+
qed

section \<open>Theorems: the busy-wait\<close>

lemma same_runInLoop:
  "\<not> runInLoop (pandaServer s) \<Longrightarrow> s\<lparr>pandaServer := (pandaServer s)\<lparr>runInLoop := False\<rparr>\<rparr> = s"
proof -
  assume "\<not> runInLoop (pandaServer s)"
  then have "(pandaServer s)\<lparr>runInLoop := False\<rparr> = pandaServer s"
    by (cases "pandaServer s") simp
  then show ?thesis by simp
qed

lemma same_runOneStep:
  "\<not> runOneStep (pandaServer s) \<Longrightarrow> s\<lparr>pandaServer := (pandaServer s)\<lparr>runOneStep := False\<rparr>\<rparr> = s"
proof -
  assume "\<not> runOneStep (pandaServer s)"
  then have "(pandaServer s)\<lparr>runOneStep := False\<rparr> = pandaServer s"
    by (cases "pandaServer s") simp
  then show ?thesis by simp
qed

lemma wait_blocked_step:
  assumes "pc s = Waiting lc" and "\<not> runInLoop (pandaServer s)" and "\<not> runOneStep (pandaServer s)"
      and "e \<noteq> SetRunInLoop True" and "e \<noteq> SetRunOneStep True"
  shows "step L records e s = s"
proof (cases e)
  case Main
  with assms show ?thesis by (simp add: step_def main_step_def)
next
  case (SetRunInLoop b)
  with assms have "b = False" by simp
  with SetRunInLoop assms(2) show ?thesis by (simp add: step_def same_runInLoop)
next
  case (SetRunOneStep b)
  with assms have "b = False" by simp
  with SetRunOneStep assms(3) show ?thesis by (simp add: step_def same_runOneStep)
qed

lemma wait_blocked:
  assumes "pc s = Waiting lc" and "\<not> runInLoop (pandaServer s)" and "\<not> runOneStep (pandaServer s)"
      and "\<forall>e\<in>set evs. e \<noteq> SetRunInLoop True \<and> e \<noteq> SetRunOneStep True"
  shows "run L records evs s = s"
  using assms(4)
proof (induction evs)
  case Nil
  show ?case by (simp add: run_Nil)
next
  case (Cons e evs)
  from Cons.prems have ne: "e \<noteq> SetRunInLoop True" "e \<noteq> SetRunOneStep True"
    by simp_all
  have "step L records e s = s"
    by (rule wait_blocked_step [OF assms(1,2,3) ne])
  with Cons show ?case by (simp add: run_Cons)
qed

lemma wait_exit:
  assumes "pc s = Waiting lc" and "runInLoop (pandaServer s) \<or> runOneStep (pandaServer s)"
  shows "main_step L records s = s\<lparr>pc := Resetting lc\<rparr>"
    and "main_step L records (s\<lparr>pc := Resetting lc\<rparr>)
           = s\<lparr>pandaServer := (pandaServer s)\<lparr>runOneStep := False\<rparr>, pc := Learning lc\<rparr>"
  using assms by (auto simp: main_step_def)

lemma main_step_pc_cases:
  "pc (main_step L records u) = pc u
   \<or> (pc u = LoopHead \<and> (\<exists>lc. pc (main_step L records u) = Waiting lc))
   \<or> (pc u = LoopHead \<and> pc (main_step L records u) = Finished)
   \<or> (\<exists>e. pc (main_step L records u) = Raised e)
   \<or> (\<exists>lc. pc u = Waiting lc \<and> pc (main_step L records u) = Resetting lc
          \<and> (runInLoop (pandaServer u) \<or> runOneStep (pandaServer u)))
   \<or> (\<exists>lc. pc u = Resetting lc \<and> pc (main_step L records u) = Learning lc
          \<and> \<not> runOneStep (pandaServer (main_step L records u)))
   \<or> (\<exists>lc. pc u = Learning lc \<and> pc (main_step L records u) = LoopHead)"
  by (cases "pc u")
     (auto simp: main_step_def split: prod.splits sum.splits option.splits)

lemma step_to_Resetting:
  assumes "pc (step L records e u) = Resetting lc" and "pc u \<noteq> Resetting lc"
  shows "e = Main \<and> pc u = Waiting lc \<and> (runInLoop (pandaServer u) \<or> runOneStep (pandaServer u))"
proof (cases e)
  case Main
  with assms main_step_pc_cases [of L records u] show ?thesis
    by (auto simp: step_def)
next
  case (SetRunInLoop b)
  with assms show ?thesis by (simp add: step_def)
next
  case (SetRunOneStep b)
  with assms show ?thesis by (simp add: step_def)
qed

lemma step_to_Learning:
  assumes "pc (step L records e u) = Learning lc" and "pc u \<noteq> Learning lc"
  shows "e = Main \<and> pc u = Resetting lc \<and> \<not> runOneStep (pandaServer (step L records e u))"
proof (cases e)
  case Main
  with assms main_step_pc_cases [of L records u] show ?thesis
    by (auto simp: step_def)
next
  case (SetRunInLoop b)
  with assms show ?thesis by (simp add: step_def)
next
  case (SetRunOneStep b)
  with assms show ?thesis by (simp add: step_def)
qed

lemma main_step_credit:
  assumes nl: "\<not> runInLoop (pandaServer s)"
  shows "credit (main_step L records s) \<le> credit s
       \<and> \<not> runInLoop (pandaServer (main_step L records s))"
proof (cases "pc s")
  case LoopHead
  show ?thesis
  proof (cases "m_count s < length records")
    case True
    obtain x s1 where p: "publish L (records ! m_count s) s = (x, s1)"
      by (cases "publish L (records ! m_count s) s") auto
    show ?thesis
    proof (cases x)
      case (Inl e)
      from publish_Inl [OF p [unfolded Inl]] nl LoopHead show ?thesis
        by (simp add: main_step_def True p Inl credit_def flag_def)
    next
      case (Inr lc)
      from publish_Inr [OF p [unfolded Inr]] nl LoopHead show ?thesis
        by (auto simp: main_step_def True p Inr credit_def flag_def)
    qed
  next
    case False
    with nl LoopHead show ?thesis by (simp add: main_step_def credit_def flag_def)
  qed
next
  case (Waiting lc)
  with nl show ?thesis by (simp add: main_step_def credit_def flag_def)
next
  case (Resetting lc)
  with nl show ?thesis by (simp add: main_step_def credit_def flag_def)
next
  case (Learning lc)
  obtain x s1 where l: "learn L lc s = (x, s1)"
    by (cases "learn L lc s") auto
  from learn_fields [OF l] have ps: "pandaServer s1 = pandaServer s" and mc: "m_count s1 = m_count s"
    by simp_all
  from nl Learning show ?thesis
    by (cases x) (simp_all add: main_step_def l credit_def flag_def ps mc)
next
  case Finished
  with nl show ?thesis by (simp add: main_step_def)
next
  case (Raised e)
  with nl show ?thesis by (simp add: main_step_def)
qed

lemma step_credit:
  assumes "\<not> runInLoop (pandaServer s)" and "e \<noteq> SetRunInLoop True"
  shows "credit (step L records e s) \<le> credit s + triggers [e]
       \<and> \<not> runInLoop (pandaServer (step L records e s))"
proof (cases e)
  case Main
  with main_step_credit [OF assms(1), of L records] show ?thesis
    by (simp add: step_def triggers_def)
next
  case (SetRunInLoop b)
  with assms show ?thesis
    by (simp add: step_def credit_def flag_def triggers_def split: loc.splits)
next
  case (SetRunOneStep b)
  with assms show ?thesis
    by (simp add: step_def credit_def flag_def triggers_def split: loc.splits)
qed

lemma triggers_Cons: "triggers (e # evs) = triggers [e] + triggers evs"
  by (simp add: triggers_def)

lemma run_credit:
  "\<not> runInLoop (pandaServer s) \<Longrightarrow> SetRunInLoop True \<notin> set evs
   \<Longrightarrow> credit (run L records evs s) \<le> credit s + triggers evs"
proof (induction evs arbitrary: s)
  case Nil
  show ?case by (simp add: run_Nil)
next
  case (Cons e evs)
  from Cons.prems have ne: "e \<noteq> SetRunInLoop True" and rest: "SetRunInLoop True \<notin> set evs"
    by auto
  from step_credit [OF Cons.prems(1) ne, of L records]
  have c: "credit (step L records e s) \<le> credit s + triggers [e]"
    and n: "\<not> runInLoop (pandaServer (step L records e s))"
    by simp_all
  from Cons.IH [OF n rest]
  have "credit (run L records evs (step L records e s)) \<le> credit (step L records e s) + triggers evs" .
  with c show ?case by (simp add: run_Cons triggers_Cons [of e evs])
qed

lemma m_count_le_credit: "m_count s \<le> credit s"
  by (simp add: credit_def)

lemma one_trigger_one_record:
  assumes w: "pc s = Waiting lc" and nl: "\<not> runInLoop (pandaServer s)"
      and tr: "runOneStep (pandaServer s)"
      and io: "int_of_float L (consumption lc) \<noteq> None"
      and lt: "m_count s + 1 < length records"
      and wf: "well_formed L (records ! (m_count s + 1))"
      and k: "has_keys (serverData s)"
  shows "\<exists>lc1. pc (run L records [Main, Main, Main, Main] s) = Waiting lc1
       \<and> m_count (run L records [Main, Main, Main, Main] s) = m_count s + 1
       \<and> \<not> runInLoop (pandaServer (run L records [Main, Main, Main, Main] s))
       \<and> \<not> runOneStep (pandaServer (run L records [Main, Main, Main, Main] s))"
proof -
  define b where "b = s\<lparr>pc := Resetting lc\<rparr>"
  define c where "c = s\<lparr>pandaServer := (pandaServer s)\<lparr>runOneStep := False\<rparr>, pc := Learning lc\<rparr>"
  have s1: "main_step L records s = b" and s2: "main_step L records b = c"
    using wait_exit [OF w, of L records] tr by (simp_all add: b_def c_def)
  obtain x sd where l: "learn L lc c = (x, sd)"
    by (cases "learn L lc c") auto
  from learn_ok [OF io, of c] l have x: "x = None" by simp
  note lf = learn_fields [OF l]
  define e where "e = sd\<lparr>m_count := m_count sd + 1, pc := LoopHead\<rparr>"
  have pcc: "pc c = Learning lc" by (simp add: c_def)
  have s3: "main_step L records c = e"
    by (simp add: main_step_def pcc l x e_def)
  have me: "m_count e = m_count s + 1" using lf by (simp add: e_def c_def)
  have pe: "pandaServer e = (pandaServer s)\<lparr>runOneStep := False\<rparr>"
    using lf by (simp add: e_def c_def)
  have ke: "has_keys (serverData e)" using lf k by (simp add: e_def c_def)
  have wfe: "well_formed L (records ! m_count e)" using wf me by simp
  from publish_ok [OF wfe ke] obtain lc1 sa where
    p: "publish L (records ! m_count e) e = (Inr lc1, sa)"
    by blast
  from publish_Inr [OF p] have fa: "runInLoop (pandaServer sa) = runInLoop (pandaServer e)"
    "runOneStep (pandaServer sa) = runOneStep (pandaServer e)" "m_count sa = m_count e"
    by auto
  have pce: "pc e = LoopHead" by (simp add: e_def)
  have lte: "m_count e < length records" using lt me by simp
  have s4: "main_step L records e = sa\<lparr>pc := Waiting lc1\<rparr>"
    by (simp add: main_step_def pce lte p)
  have r: "run L records [Main, Main, Main, Main] s = sa\<lparr>pc := Waiting lc1\<rparr>"
    by (simp add: run_Cons run_Nil step_def s1 s2 s3 s4)
  show ?thesis
    unfolding r using fa me pe nl by simp
qed

text \<open>
  C1 (as amended; the claim as stated is refuted after the witness below).  Let the
  main thread stand at the busy-wait of an iteration, after \<^verbatim>\<open>NewStateDataReady\<close>.
  As long as both flags are false and the server thread sets neither, no step of any
  schedule changes anything: the loop spins.  The wait is left only by a test that finds
  \<open>runInLoop\<close> or \<open>runOneStep\<close> true; the step after it sets \<open>runOneStep\<close> to
  false, and only that step leads to the second half of the iteration
  (\<^verbatim>\<open>tm.activateCells\<close>).  While \<open>runInLoop\<close> stays false, at most one record is
  processed per trigger: in every schedule the records completed are at most those
  completed before, plus one if \<open>runOneStep\<close> is set at the start, plus the number of
  times the server sets \<open>runOneStep\<close>.  A trigger found at the wait, with no flag set
  anew, lets exactly one record through: the main thread completes the record, publishes
  the next one and waits again.
\<close>

theorem busy_wait_one_record:
  assumes w: "pc s = Waiting lc"
  shows "(\<not> runInLoop (pandaServer s) \<and> \<not> runOneStep (pandaServer s)
            \<and> (\<forall>e\<in>set evs. e \<noteq> SetRunInLoop True \<and> e \<noteq> SetRunOneStep True)
          \<longrightarrow> run L records evs s = s)
       \<and> (runInLoop (pandaServer s) \<or> runOneStep (pandaServer s)
          \<longrightarrow> main_step L records s = s\<lparr>pc := Resetting lc\<rparr>
            \<and> main_step L records (s\<lparr>pc := Resetting lc\<rparr>)
                = s\<lparr>pandaServer := (pandaServer s)\<lparr>runOneStep := False\<rparr>, pc := Learning lc\<rparr>)
       \<and> (pc (step L records e u) = Resetting lc1 \<and> pc u \<noteq> Resetting lc1
          \<longrightarrow> e = Main \<and> pc u = Waiting lc1
            \<and> (runInLoop (pandaServer u) \<or> runOneStep (pandaServer u)))
       \<and> (pc (step L records e u) = Learning lc1 \<and> pc u \<noteq> Learning lc1
          \<longrightarrow> e = Main \<and> pc u = Resetting lc1
            \<and> \<not> runOneStep (pandaServer (step L records e u)))
       \<and> (\<not> runInLoop (pandaServer s) \<and> SetRunInLoop True \<notin> set evs
          \<longrightarrow> m_count (run L records evs s) \<le> m_count s + flag s + triggers evs)
       \<and> (\<not> runInLoop (pandaServer s) \<and> runOneStep (pandaServer s)
            \<and> int_of_float L (consumption lc) \<noteq> None
            \<and> m_count s + 1 < length records
            \<and> well_formed L (records ! (m_count s + 1))
            \<and> has_keys (serverData s)
            \<and> (\<forall>e\<in>set evs. e \<noteq> SetRunInLoop True \<and> e \<noteq> SetRunOneStep True)
          \<longrightarrow> (\<exists>lc2. pc (run L records [Main, Main, Main, Main] s) = Waiting lc2)
            \<and> m_count (run L records [Main, Main, Main, Main] s) = m_count s + 1
            \<and> run L records ([Main, Main, Main, Main] @ evs) s
                = run L records [Main, Main, Main, Main] s)"
proof -
  have a: "\<not> runInLoop (pandaServer s) \<and> \<not> runOneStep (pandaServer s)
            \<and> (\<forall>e\<in>set evs. e \<noteq> SetRunInLoop True \<and> e \<noteq> SetRunOneStep True)
          \<longrightarrow> run L records evs s = s"
    using wait_blocked [OF w] by blast
  have b: "runInLoop (pandaServer s) \<or> runOneStep (pandaServer s)
          \<longrightarrow> main_step L records s = s\<lparr>pc := Resetting lc\<rparr>
            \<and> main_step L records (s\<lparr>pc := Resetting lc\<rparr>)
                = s\<lparr>pandaServer := (pandaServer s)\<lparr>runOneStep := False\<rparr>, pc := Learning lc\<rparr>"
    using wait_exit [OF w] by blast
  have c: "pc (step L records e u) = Resetting lc1 \<and> pc u \<noteq> Resetting lc1
          \<longrightarrow> e = Main \<and> pc u = Waiting lc1
            \<and> (runInLoop (pandaServer u) \<or> runOneStep (pandaServer u))"
    using step_to_Resetting [of L records e u lc1] by blast
  have d: "pc (step L records e u) = Learning lc1 \<and> pc u \<noteq> Learning lc1
          \<longrightarrow> e = Main \<and> pc u = Resetting lc1
            \<and> \<not> runOneStep (pandaServer (step L records e u))"
    using step_to_Learning [of L records e u lc1] by blast
  have cr: "credit s = m_count s + flag s"
    using w by (simp add: credit_def)
  have f: "\<not> runInLoop (pandaServer s) \<and> SetRunInLoop True \<notin> set evs
          \<longrightarrow> m_count (run L records evs s) \<le> m_count s + flag s + triggers evs"
  proof
    assume h: "\<not> runInLoop (pandaServer s) \<and> SetRunInLoop True \<notin> set evs"
    then have "credit (run L records evs s) \<le> credit s + triggers evs"
      using run_credit [of s evs L records] by blast
    with m_count_le_credit [of "run L records evs s"] cr
    show "m_count (run L records evs s) \<le> m_count s + flag s + triggers evs"
      by simp
  qed
  have g: "(\<exists>lc2. pc (run L records [Main, Main, Main, Main] s) = Waiting lc2)
            \<and> m_count (run L records [Main, Main, Main, Main] s) = m_count s + 1
            \<and> run L records ([Main, Main, Main, Main] @ evs) s
                = run L records [Main, Main, Main, Main] s"
    if h: "\<not> runInLoop (pandaServer s) \<and> runOneStep (pandaServer s)
            \<and> int_of_float L (consumption lc) \<noteq> None
            \<and> m_count s + 1 < length records
            \<and> well_formed L (records ! (m_count s + 1))
            \<and> has_keys (serverData s)
            \<and> (\<forall>e\<in>set evs. e \<noteq> SetRunInLoop True \<and> e \<noteq> SetRunOneStep True)"
  proof -
    let ?t = "run L records [Main, Main, Main, Main] s"
    from h have h1: "\<not> runInLoop (pandaServer s)" and h2: "runOneStep (pandaServer s)"
      and h3: "int_of_float L (consumption lc) \<noteq> None" and h4: "m_count s + 1 < length records"
      and h5: "well_formed L (records ! (m_count s + 1))" and h6: "has_keys (serverData s)"
      and h7: "\<forall>e\<in>set evs. e \<noteq> SetRunInLoop True \<and> e \<noteq> SetRunOneStep True"
      by simp_all
    from one_trigger_one_record [OF w h1 h2 h3 h4 h5 h6] obtain lc2 where
      t: "pc ?t = Waiting lc2" "m_count ?t = m_count s + 1"
         "\<not> runInLoop (pandaServer ?t)" "\<not> runOneStep (pandaServer ?t)"
      by blast
    from wait_blocked [OF t(1) t(3) t(4) h7]
    have "run L records evs ?t = ?t" .
    then have "run L records ([Main, Main, Main, Main] @ evs) s = ?t"
      by (simp only: run_append)
    with t show ?thesis by blast
  qed
  from a b c d f g show ?thesis by blast
qed

lemma demo_waiting_facts:
  "pc demo_waiting = Waiting \<lparr>consumption = 5, loc_activeColumns = \<lparr>sparse = [5], sdr_size = 4\<rparr>,
                               predictiveCellsSDR = \<lparr>sparse = [0], sdr_size = 8\<rparr>\<rparr>"
  "\<not> runInLoop (pandaServer demo_waiting)" "\<not> runOneStep (pandaServer demo_waiting)"
  "m_count demo_waiting = 0"
  by (simp_all add: demo_waiting_def demo_run_defs)

lemma demo_triggered_facts:
  "pc demo_triggered = Waiting \<lparr>consumption = 5, loc_activeColumns = \<lparr>sparse = [5], sdr_size = 4\<rparr>,
                               predictiveCellsSDR = \<lparr>sparse = [0], sdr_size = 8\<rparr>\<rparr>"
  "\<not> runInLoop (pandaServer demo_triggered)" "runOneStep (pandaServer demo_triggered)"
  "m_count demo_triggered = 0" "has_keys (serverData demo_triggered)"
  by (simp_all add: demo_triggered_def demo_waiting_def has_keys_def demo_run_defs)

text \<open>
  In the small run the main thread waits after publishing the first record.  Steps of
  the main thread and writes of false change nothing.  Once the server has set
  \<open>runOneStep\<close>, seven steps of the main thread complete one record, not two.
\<close>

theorem busy_wait_one_record_witness:
  "pc demo_waiting = Waiting \<lparr>consumption = 5, loc_activeColumns = \<lparr>sparse = [5], sdr_size = 4\<rparr>,
                               predictiveCellsSDR = \<lparr>sparse = [0], sdr_size = 8\<rparr>\<rparr>
   \<and> \<not> runInLoop (pandaServer demo_waiting) \<and> \<not> runOneStep (pandaServer demo_waiting)
   \<and> run demo_htm demo_records [Main, SetRunOneStep False, Main, SetRunInLoop False, Main] demo_waiting
       = demo_waiting
   \<and> runOneStep (pandaServer demo_triggered) \<and> m_count demo_triggered = 0
   \<and> m_count (run demo_htm demo_records ([Main, Main, Main, Main] @ [Main, Main, Main]) demo_triggered) = 1"
proof -
  have q: "\<forall>e\<in>set [Main, SetRunOneStep False, Main, SetRunInLoop False, Main].
             e \<noteq> SetRunInLoop True \<and> e \<noteq> SetRunOneStep True"
    by simp
  have q2: "\<forall>e\<in>set [Main, Main, Main]. e \<noteq> SetRunInLoop True \<and> e \<noteq> SetRunOneStep True"
    by simp
  from busy_wait_one_record [OF demo_waiting_facts(1), THEN conjunct1, rule_format,
      of "[Main, SetRunOneStep False, Main, SetRunInLoop False, Main]" demo_htm demo_records]
    demo_waiting_facts q
  have a: "run demo_htm demo_records [Main, SetRunOneStep False, Main, SetRunInLoop False, Main]
             demo_waiting = demo_waiting"
    by blast
  have io: "int_of_float demo_htm
              (consumption \<lparr>consumption = 5, loc_activeColumns = \<lparr>sparse = [5], sdr_size = 4\<rparr>,
                             predictiveCellsSDR = \<lparr>sparse = [0], sdr_size = 8\<rparr>\<rparr>) \<noteq> None"
    by (simp add: demo_htm_def)
  have lt: "m_count demo_triggered + 1 < length demo_records"
    by (simp add: demo_triggered_facts demo_records_def)
  have wf: "well_formed demo_htm (demo_records ! (m_count demo_triggered + 1))"
    using demo_well_formed by (simp add: demo_triggered_facts demo_records_def)
  from busy_wait_one_record [OF demo_triggered_facts(1), where L = demo_htm
      and records = demo_records and evs = "[Main, Main, Main]"]
    demo_triggered_facts io lt wf q2
  have "m_count (run demo_htm demo_records [Main, Main, Main, Main] demo_triggered)
          = m_count demo_triggered + 1
        \<and> run demo_htm demo_records ([Main, Main, Main, Main] @ [Main, Main, Main]) demo_triggered
          = run demo_htm demo_records [Main, Main, Main, Main] demo_triggered"
    by blast
  then have b: "m_count (run demo_htm demo_records ([Main, Main, Main, Main] @ [Main, Main, Main])
                  demo_triggered) = 1"
    by (simp add: demo_triggered_facts)
  from a b demo_waiting_facts demo_triggered_facts show ?thesis by simp
qed

text \<open>
  The claim as stated fails.  In the small run, with \<open>runInLoop\<close> false and the main
  thread waiting after the first record, the server sets \<open>runOneStep\<close>, the main
  thread leaves the wait, the server sets \<open>runOneStep\<close> again, and the main thread
  resets the flag: two triggers, and one record is completed, however many steps the
  main thread takes afterwards.
\<close>

theorem busy_wait_one_record_counterexample:
  "triggers lost_trigger = 2
   \<and> \<not> runInLoop (pandaServer demo_waiting)
   \<and> m_count demo_waiting = 0
   \<and> m_count (run demo_htm demo_records lost_trigger demo_waiting) = 1
   \<and> m_count (run demo_htm demo_records (lost_trigger @ [Main, Main, Main, Main, Main, Main]) demo_waiting) = 1
   \<and> m_count (run demo_htm demo_records (lost_trigger @ [Main, Main, Main, Main, Main, Main]) demo_waiting)
        - m_count demo_waiting \<noteq> triggers lost_trigger"
  by (simp add: lost_trigger_def triggers_def demo_waiting_def demo_run_defs)

end
